theory Spec2Isabelle
  imports Main "HOL-Library.Multiset"
begin

section \<open>Effects: failure and state\<close>

text \<open>
  A C++ call can throw, and the work functions handed to the executors can have side
  effects (the likelihood term of \<open>FitUtil.h\<close> increments a counter it captured by
  reference). A call is therefore a function from the state before it to its outcome
  (\<open>Inl\<close> an exception, \<open>Inr\<close> a value) and the state after it. An exception ends the
  enclosing sequence of calls: what follows a throwing call is not executed.
\<close>

datatype exn =
    InvalidArgument string  \<comment> \<open>\<open>std::invalid_argument\<close>, thrown by the facade's constructor\<close>
  | WorkFailure             \<comment> \<open>an exception raised by a caller-supplied work function\<close>
  | NullDereference         \<comment> \<open>use of a backend pointer that was never set\<close>
  | OutOfBounds             \<comment> \<open>\<open>operator[]\<close> past the end of a \<open>std::vector\<close> (undefined in C++)\<close>
  | EmptyInput              \<comment> \<open>the empty-input condition of \<open>MapReduce\<close> (specification, section 7)\<close>

type_synonym ('s, 'r) task = "'s \<Rightarrow> (exn + 'r) \<times> 's"

definition returnT :: "'r \<Rightarrow> ('s, 'r) task" where
  "returnT r s = (Inr r, s)"

definition throwT :: "exn \<Rightarrow> ('s, 'r) task" where
  "throwT e s = (Inl e, s)"

definition bindT :: "('s, 'a) task \<Rightarrow> ('a \<Rightarrow> ('s, 'b) task) \<Rightarrow> ('s, 'b) task" where
  "bindT m k s = (case m s of (Inl e, s') \<Rightarrow> (Inl e, s') | (Inr a, s') \<Rightarrow> k a s')"

text \<open>Calling \<open>func\<close> on every item of a collection, in order, collecting the results.\<close>

fun mapT :: "('a \<Rightarrow> ('s, 'r) task) \<Rightarrow> 'a list \<Rightarrow> ('s, 'r list) task" where
  "mapT func [] s = (Inr [], s)"
| "mapT func (x # xs) s =
     (case func x s of
        (Inl e, s') \<Rightarrow> (Inl e, s')
      | (Inr r, s') \<Rightarrow>
          (case mapT func xs s' of
             (Inl e, s'') \<Rightarrow> (Inl e, s'')
           | (Inr rs, s'') \<Rightarrow> (Inr (r # rs), s'')))"

section \<open>The backends behind the facade\<close>

text \<open>
  \<open>TSequentialExecutor.hxx\<close>, \<open>TThreadExecutorImpl.hxx\<close>, \<open>TProcessExecutor.hxx\<close>,
  \<open>TExecutorCRTP.hxx\<close>, \<open>TSeq.hxx\<close> and \<open>ExecutionPolicy.hxx\<close> are included by the
  headers under verification but are not among them. Their operations are modelled from
  the specification, each marked as such. The effects of the work function are modelled
  by one schedule (chunks in index order, items of a chunk in index order); the order in
  which a thread pool collects the partial values of the chunks is left open, as the
  specification leaves it.
\<close>

text \<open>Modelled from the spec: the enumeration of \<open>ExecutionPolicy.hxx\<close>
  (section 3, "enumerated value {Serial, MultiThread, MultiProcess}").\<close>

datatype ExecutionPolicy = kSerial | kMultithread | kMultiprocess

text \<open>Modelled from the spec: \<open>ROOT::TSeq<unsigned>(begin, end)\<close> of \<open>TSeq.hxx\<close>, the
  pair of its bounds, standing for the work items \<open>begin, begin + 1, ..., end - 1\<close>;
  \<open>TSeq<unsigned>(n)\<close> is \<open>TSeq(0, n)\<close>.\<close>

type_synonym TSeq = "nat \<times> nat"

definition TSeq_items :: "TSeq \<Rightarrow> nat list" where
  "TSeq_items args = [fst args ..< snd args]"

text \<open>Modelled from the spec: the work items of the form \<open>Map(func, nTimes)\<close>, where
  \<open>func\<close> takes no argument (section 4.2, "invokes fn n times").\<close>

definition nTimesItems :: "nat \<Rightarrow> unit list" where
  "nTimesItems nTimes = replicate nTimes ()"

text \<open>Modelled from the spec: \<open>TExecutorCRTP::Reduce\<close>, which applies the reduction
  function to the collected results (section 4.2, "a single reduction pass over the
  full result sequence"; the class comment of \<open>TExecutor\<close> says the same). For zero
  work items \<open>Map\<close> "returns an empty result collection" (section 4.1), and
  \<open>MapReduce\<close> over zero items "fails with the empty-input error when no default is
  supplied" (sections 7 and 8); no form of \<open>MapReduce\<close> takes a default value, so
  reducing the empty collection is that error and the reduction function is never
  applied to an empty vector.\<close>

definition Reduce :: "'r list \<Rightarrow> ('r list \<Rightarrow> 'r) \<Rightarrow> ('s, 'r) task" where
  "Reduce objs redfunc = (if objs = [] then throwT EmptyInput else returnT (redfunc objs))"

text \<open>Modelled from the spec: \<open>TSequentialExecutor::Map\<close> (section 4.2), one call per
  item in iteration order in the calling thread.\<close>

definition TSequentialExecutor_Map :: "('a \<Rightarrow> ('s, 'r) task) \<Rightarrow> 'a list \<Rightarrow> ('s, 'r list) task" where
  "TSequentialExecutor_Map func args = mapT func args"

text \<open>Modelled from the spec: the chunking strategy (section 4.1). A chunk hint of zero
  selects the automatic count, "a small constant multiple of the pool size, bounded
  below by 1 and above by totalItems"; the items are cut into contiguous ranges of
  \<open>step\<close> items, the last one taking the remainder.\<close>

definition chunkFactor :: nat where
  "chunkFactor = 4"

definition automaticChunks :: "nat \<Rightarrow> nat \<Rightarrow> nat" where
  "automaticChunks poolSize totalItems = max 1 (min totalItems (chunkFactor * poolSize))"

fun chunksOf :: "nat \<Rightarrow> 'a list \<Rightarrow> 'a list list" where
  "chunksOf 0 xs = []"
| "chunksOf (Suc k) [] = []"
| "chunksOf (Suc k) (x # xs) = (x # take k xs) # chunksOf (Suc k) (drop k xs)"

definition chunkStep :: "nat \<Rightarrow> nat \<Rightarrow> nat \<Rightarrow> nat" where
  "chunkStep poolSize totalItems nChunks =
     (let count = (if nChunks \<noteq> 0 then nChunks else automaticChunks poolSize totalItems)
      in (totalItems + count - 1) div count)"

text \<open>Modelled from the spec: \<open>TThreadExecutorImpl::Map\<close> without a reduction function
  (section 4.3), one result per item in input order.\<close>

definition TThreadExecutorImpl_Map :: "nat \<Rightarrow> ('a \<Rightarrow> ('s, 'r) task) \<Rightarrow> 'a list \<Rightarrow> ('s, 'r list) task" where
  "TThreadExecutorImpl_Map poolSize func args = mapT func args"

text \<open>Modelled from the spec: the order in which the partial values of the chunks
  reach the caller of a thread pool. They "are collected as tasks complete (arrival
  order across threads is not guaranteed)" (section 4.3; section 5 gives "no guarantee
  on the order in which chunk-partial-results are folded together beyond each chunk
  contributes exactly once"). The order is a parameter \<open>arrival\<close> of every call that
  reaches a thread pool: a list of picks, each of which takes one of the values not yet
  collected (the pick modulo their number); when the picks run out, the remaining values
  arrive in chunk order. Every list of picks yields a permutation of the partial values,
  and every permutation is yielded by some list of picks; the empty list is the chunk
  order.\<close>

fun arrivalOrder :: "nat list \<Rightarrow> 'a list \<Rightarrow> 'a list" where
  "arrivalOrder picks [] = []"
| "arrivalOrder [] (x # xs) = x # xs"
| "arrivalOrder (p # picks) (x # xs) =
     (let i = p mod length (x # xs)
      in (x # xs) ! i # arrivalOrder picks (take i (x # xs) @ drop (Suc i) (x # xs)))"

text \<open>Modelled from the spec: \<open>TThreadExecutorImpl::Map(func, args, redfunc, nChunks)\<close>
  (section 4.3): every chunk is one task that calls \<open>func\<close> on each of its items and
  folds the results with \<open>redfunc\<close>, giving one partial value per chunk (a chunk is
  never empty); the partial values are returned in the order of their arrival.\<close>

definition TThreadExecutorImpl_Map_chunked ::
  "nat list \<Rightarrow> nat \<Rightarrow> ('a \<Rightarrow> ('s, 'r) task) \<Rightarrow> 'a list \<Rightarrow> ('r list \<Rightarrow> 'r) \<Rightarrow> nat
     \<Rightarrow> ('s, 'r list) task" where
  "TThreadExecutorImpl_Map_chunked arrival poolSize func args redfunc nChunks =
     bindT (mapT (\<lambda>chunk. bindT (mapT func chunk) (\<lambda>partialResults. returnT (redfunc partialResults)))
              (chunksOf (chunkStep poolSize (length args) nChunks) args))
       (\<lambda>partialValues. returnT (arrivalOrder arrival partialValues))"

text \<open>Modelled from the spec: \<open>TThreadExecutorImpl::MapReduce\<close> (section 4.3), the
  partial values "combined with reduce to a final value"; the chunk hint defaults to
  zero (section 6).\<close>

definition TThreadExecutorImpl_MapReduce ::
  "nat list \<Rightarrow> nat \<Rightarrow> ('a \<Rightarrow> ('s, 'r) task) \<Rightarrow> 'a list \<Rightarrow> ('r list \<Rightarrow> 'r) \<Rightarrow> nat
     \<Rightarrow> ('s, 'r) task" where
  "TThreadExecutorImpl_MapReduce arrival poolSize func args redfunc nChunks =
     bindT (TThreadExecutorImpl_Map_chunked arrival poolSize func args redfunc nChunks)
       (\<lambda>reslist. Reduce reslist redfunc)"

text \<open>Modelled from the spec: \<open>TProcessExecutor::Map\<close> and the three-argument
  \<open>TProcessExecutor::MapReduce\<close> (sections 4.4 and 4.6): one result per item in input
  order, then "a full final reduction".\<close>

definition TProcessExecutor_Map :: "nat \<Rightarrow> ('a \<Rightarrow> ('s, 'r) task) \<Rightarrow> 'a list \<Rightarrow> ('s, 'r list) task" where
  "TProcessExecutor_Map poolSize func args = mapT func args"

definition TProcessExecutor_MapReduce ::
  "nat \<Rightarrow> ('a \<Rightarrow> ('s, 'r) task) \<Rightarrow> 'a list \<Rightarrow> ('r list \<Rightarrow> 'r) \<Rightarrow> ('s, 'r) task" where
  "TProcessExecutor_MapReduce poolSize func args redfunc =
     bindT (TProcessExecutor_Map poolSize func args) (\<lambda>reslist. Reduce reslist redfunc)"

section \<open>The facade \<open>ROOT::Internal::TExecutor\<close>\<close>

text \<open>
  The object holds the policy and one pointer per backend; a backend is represented by
  the number of processing units it was constructed with, a null pointer by \<open>None\<close>.
  The build flag \<open>R__USE_IMT\<close> is a parameter of every operation that is compiled
  conditionally, and the arrival order \<open>arrival\<close> of the thread pool's partial values
  one of every operation that can reach the thread pool's chunked \<open>Map\<close>.
\<close>

record TExecutor =
  fExecPolicy :: ExecutionPolicy
  fThreadPool :: "nat option"
  fProcPool :: "nat option"
  fSeqPool :: "unit option"

definition TExecutor_new :: "bool \<Rightarrow> ExecutionPolicy \<Rightarrow> nat \<Rightarrow> exn + TExecutor" where
  "TExecutor_new R__USE_IMT execPolicy nProcessingUnits =
     (let this = \<lparr>fExecPolicy = execPolicy, fThreadPool = None, fProcPool = None, fSeqPool = None\<rparr>
      in case execPolicy of
           kSerial \<Rightarrow> Inr (this\<lparr>fSeqPool := Some ()\<rparr>)
         | kMultithread \<Rightarrow>
             if R__USE_IMT then Inr (this\<lparr>fThreadPool := Some nProcessingUnits\<rparr>)
             else Inl (InvalidArgument
               ''kMultithread policy not available when ROOT is compiled with IMT=OFF.'')
         | kMultiprocess \<Rightarrow> Inr (this\<lparr>fProcPool := Some nProcessingUnits\<rparr>))"

text \<open>The constructor without a policy: multithread if implicit multithreading is
  enabled, serial otherwise.\<close>

definition TExecutor_new_default :: "bool \<Rightarrow> bool \<Rightarrow> nat \<Rightarrow> exn + TExecutor" where
  "TExecutor_new_default R__USE_IMT IsImplicitMTEnabled nProcessingUnits =
     TExecutor_new R__USE_IMT (if IsImplicitMTEnabled then kMultithread else kSerial)
       nProcessingUnits"

definition Policy :: "TExecutor \<Rightarrow> ExecutionPolicy" where
  "Policy this = fExecPolicy this"

text \<open>\<open>TExecutor::Map(func, args)\<close>; the \<open>default\<close> branch returns the empty vector.
  The overloads for \<open>std::vector<T> &\<close>, \<open>const std::vector<T> &\<close> and
  \<open>ROOT::TSeq<INTEGER>\<close> have the same body; \<open>args\<close> is the list of their items.\<close>

definition TExecutor_Map_args ::
  "bool \<Rightarrow> TExecutor \<Rightarrow> ('a \<Rightarrow> ('s, 'r) task) \<Rightarrow> 'a list \<Rightarrow> ('s, 'r list) task" where
  "TExecutor_Map_args R__USE_IMT this func args =
     (case fExecPolicy this of
        kSerial \<Rightarrow>
          (case fSeqPool this of
             Some pool \<Rightarrow> TSequentialExecutor_Map func args
           | None \<Rightarrow> throwT NullDereference)
      | kMultithread \<Rightarrow>
          if R__USE_IMT then
            (case fThreadPool this of
               Some pool \<Rightarrow> TThreadExecutorImpl_Map pool func args
             | None \<Rightarrow> throwT NullDereference)
          else returnT []
      | kMultiprocess \<Rightarrow>
          (case fProcPool this of
             Some pool \<Rightarrow> TProcessExecutor_Map pool func args
           | None \<Rightarrow> throwT NullDereference))"

text \<open>\<open>TExecutor::Map(func, nTimes)\<close>.\<close>

definition TExecutor_Map ::
  "bool \<Rightarrow> TExecutor \<Rightarrow> ('s, 'r) task \<Rightarrow> nat \<Rightarrow> ('s, 'r list) task" where
  "TExecutor_Map R__USE_IMT this func nTimes =
     TExecutor_Map_args R__USE_IMT this (\<lambda>_. func) (nTimesItems nTimes)"

text \<open>\<open>TExecutor::Map(func, args, redfunc, nChunks)\<close> (protected).\<close>

definition TExecutor_Map_args_chunked ::
  "bool \<Rightarrow> nat list \<Rightarrow> TExecutor \<Rightarrow> ('a \<Rightarrow> ('s, 'r) task) \<Rightarrow> 'a list \<Rightarrow> ('r list \<Rightarrow> 'r) \<Rightarrow> nat
     \<Rightarrow> ('s, 'r list) task" where
  "TExecutor_Map_args_chunked R__USE_IMT arrival this func args redfunc nChunks =
     (if R__USE_IMT \<and> fExecPolicy this = kMultithread then
        (case fThreadPool this of
           Some pool \<Rightarrow> TThreadExecutorImpl_Map_chunked arrival pool func args redfunc nChunks
         | None \<Rightarrow> throwT NullDereference)
      else TExecutor_Map_args R__USE_IMT this func args)"

text \<open>\<open>TExecutor::Map(func, nTimes, redfunc, nChunks)\<close> (protected).\<close>

definition TExecutor_Map_chunked ::
  "bool \<Rightarrow> nat list \<Rightarrow> TExecutor \<Rightarrow> ('s, 'r) task \<Rightarrow> nat \<Rightarrow> ('r list \<Rightarrow> 'r) \<Rightarrow> nat
     \<Rightarrow> ('s, 'r list) task" where
  "TExecutor_Map_chunked R__USE_IMT arrival this func nTimes redfunc nChunks =
     (if R__USE_IMT \<and> fExecPolicy this = kMultithread then
        (case fThreadPool this of
           Some pool \<Rightarrow>
             TThreadExecutorImpl_Map_chunked arrival pool (\<lambda>_. func) (nTimesItems nTimes) redfunc
               nChunks
         | None \<Rightarrow> throwT NullDereference)
      else TExecutor_Map R__USE_IMT this func nTimes)"

text \<open>\<open>TExecutor::MapReduce(func, nTimes, redfunc, nChunks)\<close> and
  \<open>TExecutor::MapReduce(func, args, redfunc, nChunks)\<close>.\<close>

definition TExecutor_MapReduce ::
  "bool \<Rightarrow> nat list \<Rightarrow> TExecutor \<Rightarrow> ('s, 'r) task \<Rightarrow> nat \<Rightarrow> ('r list \<Rightarrow> 'r) \<Rightarrow> nat
     \<Rightarrow> ('s, 'r) task" where
  "TExecutor_MapReduce R__USE_IMT arrival this func nTimes redfunc nChunks =
     bindT (TExecutor_Map_chunked R__USE_IMT arrival this func nTimes redfunc nChunks)
       (\<lambda>reslist. Reduce reslist redfunc)"

definition TExecutor_MapReduce_args ::
  "bool \<Rightarrow> nat list \<Rightarrow> TExecutor \<Rightarrow> ('a \<Rightarrow> ('s, 'r) task) \<Rightarrow> 'a list \<Rightarrow> ('r list \<Rightarrow> 'r) \<Rightarrow> nat
     \<Rightarrow> ('s, 'r) task" where
  "TExecutor_MapReduce_args R__USE_IMT arrival this func args redfunc nChunks =
     bindT (TExecutor_Map_args_chunked R__USE_IMT arrival this func args redfunc nChunks)
       (\<lambda>reslist. Reduce reslist redfunc)"

section \<open>The NUMA-aware executor \<open>ROOT::Experimental::TNUMAExecutor\<close>\<close>

text \<open>
  \<open>TNUMAExecutor.hxx\<close> is present in two versions. They agree in \<open>splitData\<close>, in the
  domain tasks and in the \<open>nTimes\<close> and vector forms of \<open>MapReduce\<close>; they differ in the
  name of the inner thread pool (\<open>ROOT::TThreadExecutor\<close>, \<open>ROOT::TThreadExecutorImpl\<close>),
  in where the thread count comes from, and in the pool that fans the \<open>TSeq\<close> form out
  over the domains. With the second version \<open>TThreadExecutor.hxx\<close> makes
  \<open>ROOT::TThreadExecutor\<close> an alias of \<open>TNUMAExecutor\<close>. Every domain task constructs
  a thread pool of its own; \<open>arrivals i\<close> is the arrival order of the partial values in
  the pool of domain \<open>i\<close>.
\<close>

subsection \<open>Unsigned arithmetic and CPU affinity\<close>

text \<open>Values of type \<open>unsigned\<close> are naturals below \<open>2 ^ 32\<close>; the operations wrap.\<close>

definition u32 :: "nat \<Rightarrow> nat" where
  "u32 x = x mod 2 ^ 32"

definition uadd :: "nat \<Rightarrow> nat \<Rightarrow> nat" where
  "uadd a b = u32 (a + b)"

definition usub :: "nat \<Rightarrow> nat \<Rightarrow> nat" where
  "usub a b = u32 (a + 2 ^ 32 - u32 b)"

definition umul :: "nat \<Rightarrow> nat \<Rightarrow> nat" where
  "umul a b = u32 (a * b)"

text \<open>
  The state a domain task runs in: the set of NUMA nodes the executing thread may run on,
  as \<open>libnuma\<close> keeps it, beside the state \<open>userState\<close> of the caller's work function.
  \<open>numa_run_on_node\<close> and \<open>numa_run_on_node_mask\<close> are \<open>libnuma\<close>'s; they replace the
  set.
\<close>

datatype nodemask = OneNode nat | AllNodes

record 'u world =
  nodeAffinity :: nodemask
  userState :: 'u

definition numa_all_nodes_ptr :: nodemask where
  "numa_all_nodes_ptr = AllNodes"

definition numa_run_on_node :: "nat \<Rightarrow> ('u world, unit) task" where
  "numa_run_on_node node w = (Inr (), w\<lparr>nodeAffinity := OneNode node\<rparr>)"

definition numa_run_on_node_mask :: "nodemask \<Rightarrow> ('u world, unit) task" where
  "numa_run_on_node_mask nodes w = (Inr (), w\<lparr>nodeAffinity := nodes\<rparr>)"

subsection \<open>Construction\<close>

record TNUMAExecutor =
  fNDomains :: nat
  fDomainNThreads :: nat

text \<open>\<open>nThreads\<close> is the constructor's argument in the second version and the size of
  the global task arena in the first. \<open>numa_max_node()\<close> is the highest node number, so
  a constructed executor has at least one domain and the divisions by \<open>fNDomains\<close> below
  are defined.\<close>

definition TNUMAExecutor_new :: "nat \<Rightarrow> nat \<Rightarrow> TNUMAExecutor" where
  "TNUMAExecutor_new numa_max_node nThreads =
     \<lparr>fNDomains = numa_max_node + 1, fDomainNThreads = nThreads div (numa_max_node + 1)\<rparr>"

definition GetNUMADomains :: "TNUMAExecutor \<Rightarrow> nat" where
  "GetNUMADomains this = fNDomains this"

subsection \<open>\<open>splitData\<close>\<close>

text \<open>
  A span is a view of the vector: the pair of positions \<open>(first, last)\<close> handed to
  \<open>av.slice\<close>, standing for the elements at \<open>first, ..., last - 1\<close>. The counter \<open>i\<close>
  and \<open>stride\<close> are \<open>unsigned\<close>; the size of the view is not. The loop need not
  terminate, so the function returns \<open>None\<close> when it does not return.
\<close>

type_synonym span = "nat \<times> nat"

definition span_elems :: "'a list \<Rightarrow> span \<Rightarrow> 'a list" where
  "span_elems vec sp = take (snd sp - fst sp) (drop (fst sp) vec)"

partial_function (option) splitData_loop ::
  "nat \<Rightarrow> nat \<Rightarrow> nat \<Rightarrow> span list \<Rightarrow> span list option" where
  "splitData_loop avSize stride i v =
     (if umul i stride < avSize - stride
      then splitData_loop avSize stride (uadd i 1) (v @ [(umul i stride, umul (uadd i 1) stride)])
      else Some (v @ [(umul i stride, avSize)]))"

definition splitData :: "TNUMAExecutor \<Rightarrow> 'a list \<Rightarrow> span list option" where
  "splitData this vec =
     (let nToProcess = u32 (length vec);
          stride = usub (uadd nToProcess (fNDomains this)) 1 div fNDomains this
      in splitData_loop (length vec) stride 0 [])"

subsection \<open>\<open>MapReduce(func, nTimes, redfunc, nChunks)\<close>\<close>

definition runOnNode ::
  "(nat \<Rightarrow> nat list) \<Rightarrow> TNUMAExecutor \<Rightarrow> ('u world, 'r) task \<Rightarrow> nat \<Rightarrow> ('r list \<Rightarrow> 'r) \<Rightarrow> nat \<Rightarrow> nat
     \<Rightarrow> ('u world, 'r) task" where
  "runOnNode arrivals this func nTimes redfunc nChunks i =
     bindT (numa_run_on_node i) (\<lambda>_.
     bindT (if nChunks \<noteq> 0
            then TThreadExecutorImpl_MapReduce (arrivals i) (fDomainNThreads this) (\<lambda>_. func)
                   (nTimesItems nTimes) redfunc (nChunks div fNDomains this)
            else TThreadExecutorImpl_MapReduce (arrivals i) (fDomainNThreads this) (\<lambda>_. func)
                   (nTimesItems nTimes) redfunc 0) (\<lambda>res.
     bindT (numa_run_on_node_mask numa_all_nodes_ptr) (\<lambda>_.
     returnT res)))"

definition TNUMAExecutor_MapReduce ::
  "(nat \<Rightarrow> nat list) \<Rightarrow> TNUMAExecutor \<Rightarrow> ('u world, 'r) task \<Rightarrow> nat \<Rightarrow> ('r list \<Rightarrow> 'r) \<Rightarrow> nat
     \<Rightarrow> ('u world, 'r) task" where
  "TNUMAExecutor_MapReduce arrivals this func nTimes redfunc nChunks =
     TProcessExecutor_MapReduce (fNDomains this)
       (runOnNode arrivals this func nTimes redfunc nChunks)
       (TSeq_items (0, fNDomains this)) redfunc"

subsection \<open>\<open>MapReduce(func, std::vector<T> &args, redfunc, nChunks)\<close>\<close>

text \<open>Reading \<open>dataRanges[i]\<close> past the end of the vector is undefined behaviour; the
  model reports it as the failure \<open>OutOfBounds\<close>.\<close>

definition runOnNode_vec ::
  "(nat \<Rightarrow> nat list) \<Rightarrow> TNUMAExecutor \<Rightarrow> ('a \<Rightarrow> ('u world, 'r) task) \<Rightarrow> 'a list \<Rightarrow> span list
     \<Rightarrow> ('r list \<Rightarrow> 'r) \<Rightarrow> nat \<Rightarrow> nat \<Rightarrow> ('u world, 'r) task" where
  "runOnNode_vec arrivals this func args dataRanges redfunc nChunks i =
     bindT (numa_run_on_node i) (\<lambda>_.
     bindT (if i < length dataRanges
            then (if nChunks \<noteq> 0
                  then TThreadExecutorImpl_MapReduce (arrivals i) (fDomainNThreads this) func
                         (span_elems args (dataRanges ! i)) redfunc (nChunks div fNDomains this)
                  else TThreadExecutorImpl_MapReduce (arrivals i) (fDomainNThreads this) func
                         (span_elems args (dataRanges ! i)) redfunc 0)
            else throwT OutOfBounds) (\<lambda>res.
     bindT (numa_run_on_node_mask numa_all_nodes_ptr) (\<lambda>_.
     returnT res)))"

definition TNUMAExecutor_MapReduce_vec ::
  "(nat \<Rightarrow> nat list) \<Rightarrow> TNUMAExecutor \<Rightarrow> ('a \<Rightarrow> ('u world, 'r) task) \<Rightarrow> 'a list \<Rightarrow> ('r list \<Rightarrow> 'r)
     \<Rightarrow> nat \<Rightarrow> 'u world \<Rightarrow> ((exn + 'r) \<times> 'u world) option" where
  "TNUMAExecutor_MapReduce_vec arrivals this func args redfunc nChunks w =
     (case splitData this args of
        None \<Rightarrow> None
      | Some dataRanges \<Rightarrow>
          Some (TProcessExecutor_MapReduce (fNDomains this)
                  (runOnNode_vec arrivals this func args dataRanges redfunc nChunks)
                  (TSeq_items (0, fNDomains this)) redfunc w))"

subsection \<open>\<open>MapReduce(func, ROOT::TSeq<INTEGER> args, redfunc, nChunks)\<close>\<close>

text \<open>\<open>std::max(*args.begin(), i*stride)\<close> fixes \<open>INTEGER\<close> to \<open>unsigned\<close>.\<close>

definition TSeq_stride :: "TNUMAExecutor \<Rightarrow> TSeq \<Rightarrow> nat" where
  "TSeq_stride this args =
     usub (uadd (usub (snd args) (fst args)) (fNDomains this)) 1 div fNDomains this"

definition TSeq_sequence :: "TNUMAExecutor \<Rightarrow> TSeq \<Rightarrow> nat \<Rightarrow> TSeq" where
  "TSeq_sequence this args i =
     (let stride = TSeq_stride this args
      in (max (fst args) (umul i stride), min (umul (uadd i 1) stride) (snd args)))"

definition runOnNode_TSeq ::
  "(nat \<Rightarrow> nat list) \<Rightarrow> TNUMAExecutor \<Rightarrow> (nat \<Rightarrow> ('u world, 'r) task) \<Rightarrow> TSeq \<Rightarrow> ('r list \<Rightarrow> 'r)
     \<Rightarrow> nat \<Rightarrow> nat \<Rightarrow> ('u world, 'r) task" where
  "runOnNode_TSeq arrivals this func args redfunc nChunks i =
     bindT (numa_run_on_node i) (\<lambda>_.
     bindT (TThreadExecutorImpl_MapReduce (arrivals i) (fDomainNThreads this) func
              (TSeq_items (TSeq_sequence this args i)) redfunc (nChunks div fNDomains this)) (\<lambda>res.
     bindT (numa_run_on_node_mask numa_all_nodes_ptr) (\<lambda>_.
     returnT res)))"

text \<open>The first version fans out with a \<open>TProcessExecutor\<close>, the second with a
  \<open>TThreadExecutorImpl\<close> of \<open>fNDomains\<close> threads and no chunk hint, whose partial values
  arrive in the order \<open>arrival\<close>.\<close>

definition TNUMAExecutor_MapReduce_TSeq ::
  "(nat \<Rightarrow> nat list) \<Rightarrow> TNUMAExecutor \<Rightarrow> (nat \<Rightarrow> ('u world, 'r) task) \<Rightarrow> TSeq \<Rightarrow> ('r list \<Rightarrow> 'r)
     \<Rightarrow> nat \<Rightarrow> ('u world, 'r) task" where
  "TNUMAExecutor_MapReduce_TSeq arrivals this func args redfunc nChunks =
     TProcessExecutor_MapReduce (fNDomains this)
       (runOnNode_TSeq arrivals this func args redfunc nChunks)
       (TSeq_items (0, fNDomains this)) redfunc"

definition TNUMAExecutor_MapReduce_TSeq_2 ::
  "nat list \<Rightarrow> (nat \<Rightarrow> nat list) \<Rightarrow> TNUMAExecutor \<Rightarrow> (nat \<Rightarrow> ('u world, 'r) task) \<Rightarrow> TSeq
     \<Rightarrow> ('r list \<Rightarrow> 'r) \<Rightarrow> nat \<Rightarrow> ('u world, 'r) task" where
  "TNUMAExecutor_MapReduce_TSeq_2 arrival arrivals this func args redfunc nChunks =
     TThreadExecutorImpl_MapReduce arrival (fNDomains this)
       (runOnNode_TSeq arrivals this func args redfunc nChunks)
       (TSeq_items (0, fNDomains this)) redfunc 0"

section \<open>The fit evaluators of \<open>FitUtil.h\<close>\<close>

text \<open>
  \<open>Evaluate<T>::EvalChi2\<close> and \<open>Evaluate<T>::EvalLogL\<close> are modelled in what they do
  to their output parameter \<open>nPoints\<close> and to ROOT's error log, and in which work items
  they evaluate under which execution policy. The floating-point evaluation of an item
  is a parameter (\<open>evalItem i\<close> is what the model function and the data give for item \<open>i\<close>), and the
  returned number is represented by the accumulated terms it is computed from. The
  executor called under policy 1 and \<open>setAutomaticChunking\<close>, which is declared but not
  defined in the header, are parameters as well. \<open>vecSize\<close> is the number of lanes of
  the vector type, at least 1. The messages are written without their line breaks.
\<close>

record 'v LikelihoodAux =
  logvalue :: 'v
  weight :: 'v
  weight2 :: 'v

definition LikelihoodAux_zero :: "('v::{zero,plus}) LikelihoodAux" where
  "LikelihoodAux_zero = \<lparr>logvalue = 0, weight = 0, weight2 = 0\<rparr>"

definition LikelihoodAux_plus :: "('v::{zero,plus}) LikelihoodAux \<Rightarrow> 'v LikelihoodAux \<Rightarrow> 'v LikelihoodAux" where
  "LikelihoodAux_plus l1 l2 =
     \<lparr>logvalue = logvalue l1 + logvalue l2, weight = weight l1 + weight l2,
      weight2 = weight2 l1 + weight2 l2\<rparr>"

record fitState =
  nPoints :: nat
  errorLog :: "string list"

definition Error :: "string \<Rightarrow> (fitState, unit) task" where
  "Error msg st = (Inr (), st\<lparr>errorLog := errorLog st @ [msg]\<rparr>)"

text \<open>Both \<open>mapFunction\<close> lambdas capture \<open>nPoints\<close> by reference and increment it.\<close>

definition mapFunction :: "(nat \<Rightarrow> 'r) \<Rightarrow> nat \<Rightarrow> (fitState, 'r) task" where
  "mapFunction evalItem i st = (Inr (evalItem i), st\<lparr>nPoints := uadd (nPoints st) 1\<rparr>)"

text \<open>The loop of the serial policy: \<open>for (i = 0; i < n / vecSize; i++) res += mapFunction(i)\<close>.\<close>

fun serialLoop ::
  "('r \<Rightarrow> 'r \<Rightarrow> 'r) \<Rightarrow> (nat \<Rightarrow> (fitState, 'r) task) \<Rightarrow> nat list \<Rightarrow> 'r \<Rightarrow> (fitState, 'r) task" where
  "serialLoop add work [] res st = (Inr res, st)"
| "serialLoop add work (i # rest) res st =
     (case work i st of
        (Inl e, st') \<Rightarrow> (Inl e, st')
      | (Inr r, st') \<Rightarrow> serialLoop add work rest (add res r) st')"

type_synonym 'r poolMapReduce =
  "(nat \<Rightarrow> (fitState, 'r) task) \<Rightarrow> TSeq \<Rightarrow> ('r list \<Rightarrow> 'r) \<Rightarrow> nat \<Rightarrow> (fitState, 'r) task"

definition EvalChi2 ::
  "(nat \<Rightarrow> 'v::{zero,plus}) \<Rightarrow> 'v poolMapReduce \<Rightarrow> (nat \<Rightarrow> nat) \<Rightarrow> nat \<Rightarrow> nat \<Rightarrow> bool \<Rightarrow> nat \<Rightarrow> nat
     \<Rightarrow> (fitState, 'v) task" where
  "EvalChi2 evalItem pool_MapReduce setAutomaticChunking n vecSize unsupportedFitOpt
       executionPolicy nChunks =
     bindT (\<lambda>st. (Inr (), st\<lparr>nPoints := 0\<rparr>)) (\<lambda>_.
     bindT (if unsupportedFitOpt
            then Error ''The vectorized implementation doesn't support Integrals, BinVolume or ExpErrors. Aborting operation.''
            else returnT ()) (\<lambda>_.
     bindT (if executionPolicy = 0 then
              serialLoop (+) (mapFunction evalItem) (TSeq_items (0, n div vecSize)) 0
            else if executionPolicy = 1 then
              (let chunks = (if nChunks \<noteq> 0 then nChunks else setAutomaticChunking (n div vecSize))
               in pool_MapReduce (mapFunction evalItem) (0, n div vecSize)
                    (\<lambda>objs. foldl (+) 0 objs) chunks)
            else
              bindT (Error ''Execution policy unknown. Avalaible choices: 0: Serial (default) 1: MultiThread 2: MultiProcess'')
                (\<lambda>_. returnT 0)) (\<lambda>res.
     bindT (\<lambda>st. (Inr (), st\<lparr>nPoints := n\<rparr>)) (\<lambda>_.
     returnT res))))"

text \<open>What \<open>EvalLogL\<close> returns: \<open>0\<close> from the early return, or \<open>-logl\<close>, computed from
  the accumulated terms and, when \<open>extended\<close> is set, the extended term.\<close>

datatype 'v logLResult = ReturnZero | ReturnMinusLogL "'v LikelihoodAux" bool

definition EvalLogL ::
  "(nat \<Rightarrow> ('v::{zero,plus}) LikelihoodAux) \<Rightarrow> 'v LikelihoodAux poolMapReduce \<Rightarrow> (nat \<Rightarrow> nat)
     \<Rightarrow> nat \<Rightarrow> nat \<Rightarrow> nat \<Rightarrow> bool \<Rightarrow> bool \<Rightarrow> nat \<Rightarrow> nat \<Rightarrow> (fitState, 'v logLResult) task" where
  "EvalLogL evalItem pool_MapReduce setAutomaticChunking n vecSize rangeSize zeroAtInfinity
       extended executionPolicy nChunks =
     bindT (if executionPolicy = 0 then
              serialLoop LikelihoodAux_plus (mapFunction evalItem) (TSeq_items (0, n div vecSize))
                LikelihoodAux_zero
            else if executionPolicy = 1 then
              (let chunks = (if nChunks \<noteq> 0 then nChunks else setAutomaticChunking (n div vecSize))
               in pool_MapReduce (mapFunction evalItem) (0, n div vecSize)
                    (\<lambda>objs. foldl LikelihoodAux_plus LikelihoodAux_zero objs) chunks)
            else if executionPolicy = 2 then
              returnT LikelihoodAux_zero
            else
              bindT (Error ''Execution policy unknown. Avalaible choices: 0: Serial (default) 1: MultiThread 2: MultiProcess'')
                (\<lambda>_. returnT LikelihoodAux_zero)) (\<lambda>sums.
     let finish = bindT (\<lambda>st. (Inr (), st\<lparr>nPoints := 0\<rparr>)) (\<lambda>_.
                  returnT (ReturnMinusLogL sums extended))
     in if extended then
          (if rangeSize > 0 then finish
           else if \<not> zeroAtInfinity then
             bindT (Error ''A range has not been set and the function is not zero at +/- inf'')
               (\<lambda>_. returnT ReturnZero)
           else finish)
        else finish)"

section \<open>Notions used to state the properties\<close>

text \<open>
  A reduction function takes the vector of results to one value. It is associative when
  reducing a vector in two non-empty pieces and then reducing the two partial values
  gives what reducing the whole vector gives, and the reduction of one value is that
  value; \<open>std::accumulate\<close> with \<open>+\<close> from zero is one.
\<close>

definition associative_reduction :: "('r list \<Rightarrow> 'r) \<Rightarrow> bool" where
  "associative_reduction redfunc \<longleftrightarrow>
     (\<forall>x. redfunc [x] = x) \<and>
     (\<forall>xs ys. xs \<noteq> [] \<and> ys \<noteq> [] \<longrightarrow> redfunc (xs @ ys) = redfunc [redfunc xs, redfunc ys])"

text \<open>
  A reduction function is commutative when the value does not depend on the order of the
  results it is given.
\<close>

definition commutative_reduction :: "('r list \<Rightarrow> 'r) \<Rightarrow> bool" where
  "commutative_reduction redfunc \<longleftrightarrow> (\<forall>xs ys. mset xs = mset ys \<longrightarrow> redfunc xs = redfunc ys)"

text \<open>Modelled from the spec: the \<open>ReductionFunction\<close> of the data model (section 3), an
  "associative, commutative-in-practice combiner over a sequence of partial results".
  The class comment of \<open>TExecutor\<close> asks the same of the caller in its own words: the
  function "should be independent of the size of the vector returned by Map due to
  optimization of the number of chunks".\<close>

definition ReductionFunction :: "('r list \<Rightarrow> 'r) \<Rightarrow> bool" where
  "ReductionFunction redfunc \<longleftrightarrow> associative_reduction redfunc \<and> commutative_reduction redfunc"

text \<open>
  A list of spans is contiguous from \<open>lo\<close> to \<open>hi\<close> when the first span starts at
  \<open>lo\<close>, every span is non-empty and starts where the one before it ends, and the last
  one ends at \<open>hi\<close>: the spans are then pairwise disjoint, in order, and cover exactly
  the positions \<open>lo, ..., hi - 1\<close>.
\<close>

fun contiguous_spans :: "nat \<Rightarrow> span list \<Rightarrow> nat \<Rightarrow> bool" where
  "contiguous_spans lo [] hi = (lo = hi)"
| "contiguous_spans lo (sp # rest) hi =
     (fst sp = lo \<and> fst sp < snd sp \<and> contiguous_spans (snd sp) rest hi)"

section \<open>Chunked reduction\<close>

lemma mapT_append:
  "mapT func (xs @ ys) s =
     (case mapT func xs s of
        (Inl e, s') \<Rightarrow> (Inl e, s')
      | (Inr rs, s') \<Rightarrow>
          (case mapT func ys s' of
             (Inl e, s'') \<Rightarrow> (Inl e, s'')
           | (Inr rs', s'') \<Rightarrow> (Inr (rs @ rs'), s'')))"
  by (induction xs arbitrary: s) (auto split: prod.splits sum.splits)

lemma mapT_length: "mapT func xs s = (Inr rs, s') \<Longrightarrow> length rs = length xs"
  by (induction xs arbitrary: s rs) (auto split: prod.splits sum.splits)

lemma concat_chunksOf: "concat (chunksOf (Suc k) xs) = xs"
  by (induction "Suc k" xs rule: chunksOf.induct) auto

lemma chunksOf_nonempty: "c \<in> set (chunksOf k xs) \<Longrightarrow> c \<noteq> []"
  by (induction k xs rule: chunksOf.induct) auto

lemma chunkStep_pos: "0 < totalItems \<Longrightarrow> 0 < chunkStep poolSize totalItems nChunks"
  by (auto simp: chunkStep_def Let_def automaticChunks_def div_greater_zero_iff)

lemma concat_chunks_args:
  "concat (chunksOf (chunkStep poolSize (length args) nChunks) args) = args"
proof (cases args)
  case Nil
  then show ?thesis by (cases "chunkStep poolSize 0 nChunks") auto
next
  case (Cons a as)
  then have "0 < chunkStep poolSize (length args) nChunks"
    by (intro chunkStep_pos) simp
  then obtain k where "chunkStep poolSize (length args) nChunks = Suc k"
    by (auto simp: gr0_conv_Suc)
  then show ?thesis by (simp add: concat_chunksOf)
qed

lemma reduce_concat:
  assumes "associative_reduction redfunc" and "\<forall>c \<in> set cs. c \<noteq> []"
  shows "redfunc (map redfunc cs) = redfunc (concat cs)"
  using assms(2)
proof (induction cs)
  case Nil
  then show ?case by simp
next
  case (Cons c cs)
  show ?case
  proof (cases cs)
    case Nil
    with assms(1) show ?thesis by (simp add: associative_reduction_def)
  next
    case (Cons d ds)
    with Cons.prems have ne: "c \<noteq> []" "concat cs \<noteq> []" "map redfunc cs \<noteq> []" by auto
    have "redfunc (map redfunc (c # cs)) = redfunc ([redfunc c] @ map redfunc cs)" by simp
    also have "\<dots> = redfunc [redfunc [redfunc c], redfunc (map redfunc cs)]"
      using assms(1) ne(3) unfolding associative_reduction_def by blast
    also have "\<dots> = redfunc [redfunc c, redfunc (concat cs)]"
      using assms(1) Cons.IH Cons.prems by (simp add: associative_reduction_def)
    also have "\<dots> = redfunc (c @ concat cs)"
      using assms(1) ne(1,2) unfolding associative_reduction_def by metis
    finally show ?thesis by simp
  qed
qed

lemma mapT_chunks:
  "case mapT func (concat cs) s of
     (Inl e, s') \<Rightarrow>
       mapT (\<lambda>chunk. bindT (mapT func chunk) (\<lambda>p. returnT (redfunc p))) cs s = (Inl e, s')
   | (Inr rs, s') \<Rightarrow>
       (\<exists>rss. mapT (\<lambda>chunk. bindT (mapT func chunk) (\<lambda>p. returnT (redfunc p))) cs s
                = (Inr (map redfunc rss), s')
            \<and> concat rss = rs \<and> map length rss = map length cs)"
proof (induction cs arbitrary: s)
  case Nil
  then show ?case by simp
next
  case (Cons c cs)
  show ?case
  proof (cases "mapT func c s")
    case (Pair r1 s1)
    show ?thesis
    proof (cases r1)
      case (Inl e)
      with Pair show ?thesis by (simp add: mapT_append bindT_def)
    next
      case (Inr rs1)
      have len: "length rs1 = length c" using Pair Inr by (auto dest: mapT_length)
      show ?thesis
      proof (cases "mapT func (concat cs) s1")
        case (Pair r2 s2)
        show ?thesis
        proof (cases r2)
          case (Inl e)
          with Pair Cons.IH[of s1] \<open>mapT func c s = (r1, s1)\<close> \<open>r1 = Inr rs1\<close>
          show ?thesis by (simp add: mapT_append bindT_def returnT_def)
        next
          case (Inr rs2)
          with Pair Cons.IH[of s1] obtain rss where
            rss: "mapT (\<lambda>chunk. bindT (mapT func chunk) (\<lambda>p. returnT (redfunc p))) cs s1
                    = (Inr (map redfunc rss), s2)"
              "concat rss = rs2" "map length rss = map length cs"
            by auto
          have "mapT (\<lambda>chunk. bindT (mapT func chunk) (\<lambda>p. returnT (redfunc p))) (c # cs) s
                  = (Inr (map redfunc (rs1 # rss)), s2)"
            using rss(1) \<open>mapT func c s = (r1, s1)\<close> \<open>r1 = Inr rs1\<close>
            by (simp add: bindT_def returnT_def)
          moreover have "concat (rs1 # rss) = rs1 @ rs2" using rss(2) by simp
          moreover have "map length (rs1 # rss) = map length (c # cs)" using rss(3) len by simp
          ultimately have "\<exists>rss'. mapT (\<lambda>chunk. bindT (mapT func chunk) (\<lambda>p. returnT (redfunc p))) (c # cs) s
                  = (Inr (map redfunc rss'), s2) \<and> concat rss' = rs1 @ rs2
                  \<and> map length rss' = map length (c # cs)"
            by blast
          moreover have "mapT func (concat (c # cs)) s = (Inr (rs1 @ rs2), s2)"
            using Pair Inr \<open>mapT func c s = (r1, s1)\<close> \<open>r1 = Inr rs1\<close>
            by (simp add: mapT_append)
          ultimately show ?thesis by simp
        qed
      qed
    qed
  qed
qed

text \<open>The arrival order is a permutation of the partial values, and any permutation is
  the arrival order of some list of picks.\<close>

lemma mset_arrivalOrder: "mset (arrivalOrder picks xs) = mset xs"
proof (induction picks xs rule: arrivalOrder.induct)
  case (3 p picks x xs)
  let ?l = "x # xs"
  let ?i = "p mod length ?l"
  have i: "?i < length ?l" by simp
  have "mset (arrivalOrder (p # picks) ?l) = {#?l ! ?i#} + mset (take ?i ?l @ drop (Suc ?i) ?l)"
    using 3 by (simp add: Let_def)
  also have "\<dots> = mset (take ?i ?l @ ?l ! ?i # drop (Suc ?i) ?l)" by simp
  also have "\<dots> = mset ?l" using id_take_nth_drop[OF i] by simp
  finally show ?case .
qed simp_all

lemma arrivalOrder_Nil_iff: "arrivalOrder picks xs = [] \<longleftrightarrow> xs = []"
  using mset_arrivalOrder[of picks xs] by (metis mset_zero_iff)

lemma arrivalOrder_in_chunk_order: "arrivalOrder [] xs = xs"
  by (cases xs) simp_all

lemma arrivalOrder_any_order:
  assumes "mset ys = mset xs"
  shows "\<exists>picks. arrivalOrder picks xs = ys"
  using assms
proof (induction ys arbitrary: xs)
  case Nil
  then show ?case by simp
next
  case (Cons y ys)
  then have "y \<in> set xs" by (metis list.set_intros(1) mset_eq_setD)
  then obtain i where i: "i < length xs" "xs ! i = y" by (auto simp: in_set_conv_nth)
  let ?rest = "take i xs @ drop (Suc i) xs"
  have "mset xs = {#y#} + mset ?rest"
    using id_take_nth_drop[OF i(1)] i(2) by (metis add_mset_add_single mset.simps(2) mset_append union_commute union_mset_add_mset_right)
  with Cons.prems have "mset ys = mset ?rest" by simp
  from Cons.IH[OF this] obtain picks where picks: "arrivalOrder picks ?rest = ys" by blast
  from i(1) obtain x xs' where xs: "xs = x # xs'" by (cases xs) auto
  have "arrivalOrder (i # picks) xs = y # ys"
    using i picks unfolding xs by (simp add: Let_def)
  then show ?case by blast
qed

lemma reduce_arrivalOrder:
  assumes "commutative_reduction redfunc"
  shows "redfunc (arrivalOrder picks xs) = redfunc xs"
  using assms mset_arrivalOrder[of picks xs] unfolding commutative_reduction_def by blast

text \<open>With an associative and commutative reduction function the thread pool's
  \<open>MapReduce\<close> is the plain sequence of calls followed by one reduction, whatever the
  chunk hint, the size of the pool and the arrival order are.\<close>

lemma TThreadExecutorImpl_MapReduce_flat:
  assumes "associative_reduction redfunc" and "commutative_reduction redfunc"
  shows "TThreadExecutorImpl_MapReduce arrival poolSize func args redfunc nChunks =
           bindT (mapT func args) (\<lambda>reslist. Reduce reslist redfunc)"
proof
  fix s
  let ?cs = "chunksOf (chunkStep poolSize (length args) nChunks) args"
  have cat: "concat ?cs = args" by (rule concat_chunks_args)
  have ne: "\<forall>c \<in> set ?cs. c \<noteq> []" by (auto dest: chunksOf_nonempty)
  show "TThreadExecutorImpl_MapReduce arrival poolSize func args redfunc nChunks s =
          bindT (mapT func args) (\<lambda>reslist. Reduce reslist redfunc) s"
  proof (cases "mapT func args s")
    case (Pair r s')
    show ?thesis
    proof (cases r)
      case (Inl e)
      with Pair mapT_chunks[where func = func and cs = ?cs and s = s and redfunc = redfunc] cat show ?thesis
        by (simp add: TThreadExecutorImpl_MapReduce_def TThreadExecutorImpl_Map_chunked_def bindT_def)
    next
      case (Inr rs)
      with Pair mapT_chunks[where func = func and cs = ?cs and s = s and redfunc = redfunc] cat obtain rss where
        rss: "mapT (\<lambda>chunk. bindT (mapT func chunk) (\<lambda>p. returnT (redfunc p))) ?cs s
                = (Inr (map redfunc rss), s')"
          "concat rss = rs" "map length rss = map length ?cs"
        by auto
      have nonempty: "\<forall>r \<in> set rss. r \<noteq> []"
      proof
        fix r assume "r \<in> set rss"
        then obtain i where i: "i < length rss" "rss ! i = r" by (auto simp: in_set_conv_nth)
        have l: "length rss = length ?cs" using rss(3) by (metis length_map)
        have "length (rss ! i) = length (?cs ! i)"
          using rss(3) i(1) l by (metis nth_map)
        moreover have "?cs ! i \<noteq> []" using ne i(1) l by (metis nth_mem)
        ultimately show "r \<noteq> []" using i(2) by auto
      qed
      then have red: "redfunc (arrivalOrder arrival (map redfunc rss)) = redfunc rs"
        using reduce_concat[OF assms(1)] rss(2) reduce_arrivalOrder[OF assms(2)] by metis
      have "rss = [] \<longleftrightarrow> rs = []"
        using nonempty rss(2) by (cases rss) auto
      then have empty: "arrivalOrder arrival (map redfunc rss) = [] \<longleftrightarrow> rs = []"
        by (simp add: arrivalOrder_Nil_iff)
      from rss(1) Pair Inr red empty show ?thesis
        by (simp add: TThreadExecutorImpl_MapReduce_def TThreadExecutorImpl_Map_chunked_def
            bindT_def returnT_def Reduce_def)
    qed
  qed
qed

section \<open>Properties of the facade and of the chunk hint\<close>

lemma TExecutor_new_cases:
  assumes "TExecutor_new imt policy n = Inr this"
  shows "fExecPolicy this = policy"
    and "policy = kSerial \<Longrightarrow> fSeqPool this = Some ()"
    and "policy = kMultithread \<Longrightarrow> imt \<and> fThreadPool this = Some n"
    and "policy = kMultiprocess \<Longrightarrow> fProcPool this = Some n"
  using assms by (auto simp: TExecutor_new_def Let_def split: ExecutionPolicy.splits if_splits)

lemma bindT_returnT: "bindT (returnT x) k = k x"
  by (rule ext) (simp add: bindT_def returnT_def)

lemma bindT_throwT: "bindT (throwT e) k = throwT e"
  by (rule ext) (simp add: bindT_def throwT_def)

lemma associative_reduction_sum_list: "associative_reduction (sum_list :: int list \<Rightarrow> int)"
  by (simp add: associative_reduction_def)

lemma commutative_reduction_sum_list: "commutative_reduction (sum_list :: int list \<Rightarrow> int)"
  unfolding commutative_reduction_def by (metis sum_mset_sum_list)

lemma ReductionFunction_sum_list: "ReductionFunction (sum_list :: int list \<Rightarrow> int)"
  by (simp add: ReductionFunction_def associative_reduction_sum_list
      commutative_reduction_sum_list)

lemma TThreadExecutorImpl_MapReduce_reduction:
  assumes "ReductionFunction redfunc"
  shows "TThreadExecutorImpl_MapReduce arrival poolSize func args redfunc nChunks =
           bindT (mapT func args) (\<lambda>reslist. Reduce reslist redfunc)"
  using assms by (simp add: ReductionFunction_def TThreadExecutorImpl_MapReduce_flat)

lemma TExecutor_MapReduce_args_flat:
  assumes "ReductionFunction redfunc" and "TExecutor_new imt policy n = Inr this"
  shows "TExecutor_MapReduce_args imt arrival this func args redfunc nChunks =
           bindT (mapT func args) (\<lambda>reslist. Reduce reslist redfunc)"
proof (cases policy)
  case kSerial
  with TExecutor_new_cases(1,2)[OF assms(2)] show ?thesis
    by (simp add: TExecutor_MapReduce_args_def TExecutor_Map_args_chunked_def
        TExecutor_Map_args_def TSequentialExecutor_Map_def)
next
  case kMultithread
  with TExecutor_new_cases(1,3)[OF assms(2)]
  have "TExecutor_MapReduce_args imt arrival this func args redfunc nChunks =
          TThreadExecutorImpl_MapReduce arrival n func args redfunc nChunks"
    by (simp add: TExecutor_MapReduce_args_def TExecutor_Map_args_chunked_def
        TThreadExecutorImpl_MapReduce_def)
  then show ?thesis
    by (simp add: TThreadExecutorImpl_MapReduce_reduction[OF assms(1)])
next
  case kMultiprocess
  with TExecutor_new_cases(1,4)[OF assms(2)] show ?thesis
    by (simp add: TExecutor_MapReduce_args_def TExecutor_Map_args_chunked_def
        TExecutor_Map_args_def TProcessExecutor_Map_def)
qed

lemma TExecutor_MapReduce_as_args:
  "TExecutor_MapReduce imt arrival this func nTimes redfunc nChunks =
     TExecutor_MapReduce_args imt arrival this (\<lambda>_. func) (nTimesItems nTimes) redfunc nChunks"
  by (simp add: TExecutor_MapReduce_def TExecutor_MapReduce_args_def TExecutor_Map_chunked_def
      TExecutor_Map_args_chunked_def TExecutor_Map_def)

lemma TExecutor_MapReduce_flat:
  assumes "ReductionFunction redfunc" and "TExecutor_new imt policy n = Inr this"
  shows "TExecutor_MapReduce imt arrival this func nTimes redfunc nChunks =
           bindT (mapT (\<lambda>_. func) (nTimesItems nTimes)) (\<lambda>reslist. Reduce reslist redfunc)"
  by (simp add: TExecutor_MapReduce_as_args TExecutor_MapReduce_args_flat[OF assms])

lemma runOnNode_chunk_free:
  assumes "ReductionFunction redfunc"
  shows "runOnNode arrivals this func nTimes redfunc nChunks i =
           bindT (numa_run_on_node i) (\<lambda>_.
           bindT (bindT (mapT (\<lambda>_. func) (nTimesItems nTimes)) (\<lambda>reslist. Reduce reslist redfunc))
             (\<lambda>res. bindT (numa_run_on_node_mask numa_all_nodes_ptr) (\<lambda>_. returnT res)))"
  by (simp add: runOnNode_def TThreadExecutorImpl_MapReduce_reduction[OF assms])

lemma runOnNode_vec_chunk_free:
  assumes "ReductionFunction redfunc"
  shows "runOnNode_vec arrivals this func args dataRanges redfunc nChunks i =
           runOnNode_vec arrivals' this func args dataRanges redfunc nChunks' i"
  by (simp add: runOnNode_vec_def TThreadExecutorImpl_MapReduce_reduction[OF assms])

lemma runOnNode_TSeq_chunk_free:
  assumes "ReductionFunction redfunc"
  shows "runOnNode_TSeq arrivals this func args redfunc nChunks i =
           runOnNode_TSeq arrivals' this func args redfunc nChunks' i"
  by (simp add: runOnNode_TSeq_def TThreadExecutorImpl_MapReduce_reduction[OF assms])

lemma mapT_returnT: "mapT (\<lambda>x. returnT (f x)) xs s = (Inr (map f xs), s)"
  by (induction xs arbitrary: s) (simp_all add: returnT_def)

lemma chunksOf_Nil: "chunksOf k [] = []"
  by (cases k) simp_all

lemma TThreadExecutorImpl_MapReduce_Nil:
  "TThreadExecutorImpl_MapReduce arrival poolSize func [] redfunc nChunks s = (Inl EmptyInput, s)"
  by (simp add: TThreadExecutorImpl_MapReduce_def TThreadExecutorImpl_Map_chunked_def
      chunksOf_Nil bindT_def returnT_def throwT_def Reduce_def)

text \<open>Associativity alone does not make the thread pool agree with the plain sequence
  of calls: taking the last value is associative, and with the second of two chunks
  arriving first the pool returns the last value of the first chunk.\<close>

lemma associativity_alone_not_enough:
  "associative_reduction (last :: int list \<Rightarrow> int)
   \<and> TThreadExecutorImpl_MapReduce [] 2 (\<lambda>x. returnT x) [1, 2, 3, 4 :: int] last 2 () = (Inr 4, ())
   \<and> TThreadExecutorImpl_MapReduce [1] 2 (\<lambda>x. returnT x) [1, 2, 3, 4 :: int] last 2 () = (Inr 2, ())"
proof -
  have "chunkStep 2 (length [1, 2, 3, 4 :: int]) 2 = Suc (Suc 0)"
    by (simp add: chunkStep_def)
  then have cs: "chunksOf (chunkStep 2 (length [1, 2, 3, 4 :: int]) 2) [1, 2, 3, 4 :: int] = [[1, 2], [3, 4]]"
    by simp
  have "associative_reduction (last :: int list \<Rightarrow> int)"
    by (simp add: associative_reduction_def)
  then show ?thesis
    unfolding TThreadExecutorImpl_MapReduce_def TThreadExecutorImpl_Map_chunked_def cs
    by (simp add: bindT_def returnT_def Reduce_def)
qed

text \<open>
  C4. The chunked \<open>Map\<close> of a constructed facade is the thread pool's chunked \<open>Map\<close>
  exactly when the policy is multithread, and \<open>MapReduce\<close> is then the reduction of
  the partial values that this chunked \<open>Map\<close> returns, which is the thread pool's own
  \<open>MapReduce\<close>. Under the serial and the multiprocess policy the chunked \<open>Map\<close> is
  the plain \<open>Map\<close> of the selected backend, whatever the reduction function and the
  chunk hint are, and \<open>MapReduce\<close> is that \<open>Map\<close> followed by one reduction of all
  the results. This holds for the \<open>nTimes\<close> form and for the collection form.
\<close>

theorem TExecutor_chunked_forwarding:
  assumes "TExecutor_new imt policy n = Inr this"
  shows "TExecutor_Map_chunked imt arrival this func nTimes redfunc nChunks =
           (case policy of
              kMultithread \<Rightarrow>
                TThreadExecutorImpl_Map_chunked arrival n (\<lambda>_. func) (nTimesItems nTimes) redfunc
                  nChunks
            | kSerial \<Rightarrow> TSequentialExecutor_Map (\<lambda>_. func) (nTimesItems nTimes)
            | kMultiprocess \<Rightarrow> TProcessExecutor_Map n (\<lambda>_. func) (nTimesItems nTimes))
       \<and> TExecutor_Map_args_chunked imt arrival this work args redfunc nChunks =
           (case policy of
              kMultithread \<Rightarrow> TThreadExecutorImpl_Map_chunked arrival n work args redfunc nChunks
            | kSerial \<Rightarrow> TSequentialExecutor_Map work args
            | kMultiprocess \<Rightarrow> TProcessExecutor_Map n work args)
       \<and> TExecutor_MapReduce imt arrival this func nTimes redfunc nChunks =
           (case policy of
              kMultithread \<Rightarrow>
                bindT (TThreadExecutorImpl_Map_chunked arrival n (\<lambda>_. func) (nTimesItems nTimes)
                         redfunc nChunks)
                  (\<lambda>reslist. Reduce reslist redfunc)
            | kSerial \<Rightarrow>
                bindT (TSequentialExecutor_Map (\<lambda>_. func) (nTimesItems nTimes))
                  (\<lambda>reslist. Reduce reslist redfunc)
            | kMultiprocess \<Rightarrow>
                bindT (TProcessExecutor_Map n (\<lambda>_. func) (nTimesItems nTimes))
                  (\<lambda>reslist. Reduce reslist redfunc))
       \<and> TExecutor_MapReduce_args imt arrival this work args redfunc nChunks =
           (case policy of
              kMultithread \<Rightarrow>
                bindT (TThreadExecutorImpl_Map_chunked arrival n work args redfunc nChunks)
                  (\<lambda>reslist. Reduce reslist redfunc)
            | kSerial \<Rightarrow>
                bindT (TSequentialExecutor_Map work args) (\<lambda>reslist. Reduce reslist redfunc)
            | kMultiprocess \<Rightarrow>
                bindT (TProcessExecutor_Map n work args) (\<lambda>reslist. Reduce reslist redfunc))
       \<and> (policy = kMultithread \<longrightarrow>
            TExecutor_MapReduce imt arrival this func nTimes redfunc nChunks =
              TThreadExecutorImpl_MapReduce arrival n (\<lambda>_. func) (nTimesItems nTimes) redfunc nChunks
          \<and> TExecutor_MapReduce_args imt arrival this work args redfunc nChunks =
              TThreadExecutorImpl_MapReduce arrival n work args redfunc nChunks)
       \<and> (policy \<noteq> kMultithread \<longrightarrow>
            TExecutor_Map_chunked imt arrival this func nTimes redfunc nChunks =
              TExecutor_Map imt this func nTimes
          \<and> TExecutor_Map_args_chunked imt arrival this work args redfunc nChunks =
              TExecutor_Map_args imt this work args
          \<and> TExecutor_MapReduce imt arrival this func nTimes redfunc nChunks =
              bindT (TExecutor_Map imt this func nTimes) (\<lambda>reslist. Reduce reslist redfunc)
          \<and> TExecutor_MapReduce_args imt arrival this work args redfunc nChunks =
              bindT (TExecutor_Map_args imt this work args) (\<lambda>reslist. Reduce reslist redfunc))"
proof (cases policy)
  case kSerial
  with TExecutor_new_cases(1,2)[OF assms] show ?thesis
    by (simp add: TExecutor_Map_chunked_def TExecutor_Map_args_chunked_def TExecutor_Map_def
        TExecutor_Map_args_def TExecutor_MapReduce_def TExecutor_MapReduce_args_def)
next
  case kMultithread
  with TExecutor_new_cases(1,3)[OF assms] show ?thesis
    by (simp add: TExecutor_Map_chunked_def TExecutor_Map_args_chunked_def
        TExecutor_MapReduce_def TExecutor_MapReduce_args_def TThreadExecutorImpl_MapReduce_def)
next
  case kMultiprocess
  with TExecutor_new_cases(1,4)[OF assms] show ?thesis
    by (simp add: TExecutor_Map_chunked_def TExecutor_Map_args_chunked_def TExecutor_Map_def
        TExecutor_Map_args_def TExecutor_MapReduce_def TExecutor_MapReduce_args_def)
qed

text \<open>Four items in two chunks, the second chunk arriving first: under the multithread
  policy the chunked \<open>Map\<close> returns the two partial sums, under the serial policy the
  four results.\<close>

theorem TExecutor_chunked_forwarding_witness:
  "TExecutor_new True kMultithread 2 =
     Inr \<lparr>fExecPolicy = kMultithread, fThreadPool = Some 2, fProcPool = None, fSeqPool = None\<rparr>
   \<and> TExecutor_Map_args_chunked True [1]
       \<lparr>fExecPolicy = kMultithread, fThreadPool = Some 2, fProcPool = None, fSeqPool = None\<rparr>
       (\<lambda>x. returnT x) [1, 2, 3, 4 :: int] sum_list 2 () = (Inr [7, 3], ())
   \<and> TExecutor_MapReduce_args True [1]
       \<lparr>fExecPolicy = kMultithread, fThreadPool = Some 2, fProcPool = None, fSeqPool = None\<rparr>
       (\<lambda>x. returnT x) [1, 2, 3, 4 :: int] sum_list 2 () = (Inr 10, ())
   \<and> TExecutor_new True kSerial 2 =
     Inr \<lparr>fExecPolicy = kSerial, fThreadPool = None, fProcPool = None, fSeqPool = Some ()\<rparr>
   \<and> TExecutor_Map_args_chunked True [1]
       \<lparr>fExecPolicy = kSerial, fThreadPool = None, fProcPool = None, fSeqPool = Some ()\<rparr>
       (\<lambda>x. returnT x) [1, 2, 3, 4 :: int] sum_list 2 () = (Inr [1, 2, 3, 4], ())
   \<and> TExecutor_MapReduce_args True [1]
       \<lparr>fExecPolicy = kSerial, fThreadPool = None, fProcPool = None, fSeqPool = Some ()\<rparr>
       (\<lambda>x. returnT x) [1, 2, 3, 4 :: int] sum_list 2 () = (Inr 10, ())"
proof -
  let ?t = "\<lparr>fExecPolicy = kMultithread, fThreadPool = Some 2, fProcPool = None, fSeqPool = None\<rparr>"
  let ?s = "\<lparr>fExecPolicy = kSerial, fThreadPool = None, fProcPool = None, fSeqPool = Some ()\<rparr>"
  let ?f = "(\<lambda>x. returnT x) :: int \<Rightarrow> (unit, int) task"
  let ?one = "returnT 1 :: (unit, int) task"
  have t: "TExecutor_new True kMultithread 2 = Inr ?t" and s: "TExecutor_new True kSerial 2 = Inr ?s"
    by (simp_all add: TExecutor_new_def Let_def)
  have "chunkStep 2 (length [1, 2, 3, 4 :: int]) 2 = Suc (Suc 0)"
    by (simp add: chunkStep_def)
  then have cs: "chunksOf (chunkStep 2 (length [1, 2, 3, 4 :: int]) 2) [1, 2, 3, 4 :: int]
                   = [[1, 2], [3, 4]]"
    by simp
  have pool: "TThreadExecutorImpl_Map_chunked [1] 2 ?f [1, 2, 3, 4] sum_list 2 () = (Inr [7, 3], ())"
    unfolding TThreadExecutorImpl_Map_chunked_def cs
    by (simp add: bindT_def returnT_def)
  have seq: "TSequentialExecutor_Map ?f [1, 2, 3, 4] () = (Inr [1, 2, 3, 4], ())"
    by (simp add: TSequentialExecutor_Map_def returnT_def)
  note mt = TExecutor_chunked_forwarding [OF t, where arrival = "[1]" and work = ?f
      and args = "[1, 2, 3, 4]" and redfunc = sum_list and nChunks = 2 and func = ?one and nTimes = 0]
  note se = TExecutor_chunked_forwarding [OF s, where arrival = "[1]" and work = ?f
      and args = "[1, 2, 3, 4]" and redfunc = sum_list and nChunks = 2 and func = ?one and nTimes = 0]
  have "TExecutor_Map_args_chunked True [1] ?t ?f [1, 2, 3, 4] sum_list 2 () = (Inr [7, 3], ())"
    using mt pool by simp
  moreover have "TExecutor_MapReduce_args True [1] ?t ?f [1, 2, 3, 4] sum_list 2 () = (Inr 10, ())"
    using mt pool by (simp add: bindT_def returnT_def Reduce_def)
  moreover have "TExecutor_Map_args_chunked True [1] ?s ?f [1, 2, 3, 4] sum_list 2 ()
      = (Inr [1, 2, 3, 4], ())"
    using se seq by simp
  moreover have "TExecutor_MapReduce_args True [1] ?s ?f [1, 2, 3, 4] sum_list 2 () = (Inr 10, ())"
    using se seq by (simp add: bindT_def returnT_def Reduce_def)
  ultimately show ?thesis using t s by simp
qed

text \<open>
  With a reduction function in the sense of the specification the result of
  \<open>MapReduce\<close> does not depend on the chunk hint (so it is the same for the hints 1, 4
  and 0), nor on the order in which the partial values arrive, nor on the policy the
  facade was constructed with, nor on the size of its pool: two facades given the same
  work function and the same input, of 1000 items or of any other number, return the
  same value and leave the same state. The NUMA-aware executor passes the hint on
  divided by the number of domains, and in each of its forms the result does not depend
  on the hint either.
\<close>

lemma chunk_count_invariance:
  assumes "ReductionFunction redfunc"
    and "TExecutor_new imt policy n = Inr this"
    and "TExecutor_new imt policy' n' = Inr this'"
  shows "TExecutor_MapReduce_args imt arrival this func args redfunc nChunks =
           TExecutor_MapReduce_args imt arrival' this' func args redfunc nChunks'"
    and "TExecutor_MapReduce imt arrival this work nTimes redfunc nChunks =
           TExecutor_MapReduce imt arrival' this' work nTimes redfunc nChunks'"
  by (simp_all add: TExecutor_MapReduce_args_flat[OF assms(1,2)]
      TExecutor_MapReduce_args_flat[OF assms(1,3)] TExecutor_MapReduce_flat[OF assms(1,2)]
      TExecutor_MapReduce_flat[OF assms(1,3)])

lemma TNUMAExecutor_chunk_count_invariance:
  assumes "ReductionFunction redfunc"
  shows "TNUMAExecutor_MapReduce arrivals numa nwork nTimes redfunc nChunks =
           TNUMAExecutor_MapReduce arrivals' numa nwork nTimes redfunc nChunks'"
    and "TNUMAExecutor_MapReduce_vec arrivals numa nfunc args redfunc nChunks =
           TNUMAExecutor_MapReduce_vec arrivals' numa nfunc args redfunc nChunks'"
    and "TNUMAExecutor_MapReduce_TSeq arrivals numa sfunc seq redfunc nChunks =
           TNUMAExecutor_MapReduce_TSeq arrivals' numa sfunc seq redfunc nChunks'"
proof -
  have "runOnNode arrivals numa nwork nTimes redfunc nChunks =
          runOnNode arrivals' numa nwork nTimes redfunc nChunks'"
    by (rule ext) (simp only: runOnNode_chunk_free[OF assms])
  then show "TNUMAExecutor_MapReduce arrivals numa nwork nTimes redfunc nChunks =
          TNUMAExecutor_MapReduce arrivals' numa nwork nTimes redfunc nChunks'"
    by (simp add: TNUMAExecutor_MapReduce_def)
  have vec: "runOnNode_vec arrivals numa nfunc args dataRanges redfunc nChunks =
          runOnNode_vec arrivals' numa nfunc args dataRanges redfunc nChunks'" for dataRanges
    by (rule ext) (rule runOnNode_vec_chunk_free[OF assms])
  show "TNUMAExecutor_MapReduce_vec arrivals numa nfunc args redfunc nChunks =
          TNUMAExecutor_MapReduce_vec arrivals' numa nfunc args redfunc nChunks'"
    by (rule ext) (simp add: TNUMAExecutor_MapReduce_vec_def vec split: option.splits)
  have "runOnNode_TSeq arrivals numa sfunc seq redfunc nChunks =
          runOnNode_TSeq arrivals' numa sfunc seq redfunc nChunks'"
    by (rule ext) (rule runOnNode_TSeq_chunk_free[OF assms])
  then show "TNUMAExecutor_MapReduce_TSeq arrivals numa sfunc seq redfunc nChunks =
          TNUMAExecutor_MapReduce_TSeq arrivals' numa sfunc seq redfunc nChunks'"
    by (simp add: TNUMAExecutor_MapReduce_TSeq_def)
qed

text \<open>
  C2. For every work function, every reduction function in the sense of the
  specification (associative and commutative), every input, every chunk hint and every
  arrival order of the partial values, the facades constructed with the serial, the
  multithread and the multiprocess policy return the same result from \<open>MapReduce\<close> and
  leave the same state, in the collection form and in the \<open>nTimes\<close> form; the result
  is that of the plain sequence of calls followed by one reduction. \<open>Map\<close> without a
  reduction function returns the same collection under the three policies.
\<close>

theorem backend_equivalence:
  assumes "ReductionFunction redfunc"
    and "TExecutor_new imt kSerial n1 = Inr serial"
    and "TExecutor_new imt kMultithread n2 = Inr multithread"
    and "TExecutor_new imt kMultiprocess n3 = Inr multiprocess"
  shows "TExecutor_MapReduce_args imt arrival1 serial func args redfunc nChunks =
           bindT (mapT func args) (\<lambda>reslist. Reduce reslist redfunc)
       \<and> TExecutor_MapReduce_args imt arrival2 multithread func args redfunc nChunks =
           TExecutor_MapReduce_args imt arrival1 serial func args redfunc nChunks
       \<and> TExecutor_MapReduce_args imt arrival3 multiprocess func args redfunc nChunks =
           TExecutor_MapReduce_args imt arrival1 serial func args redfunc nChunks
       \<and> TExecutor_MapReduce imt arrival2 multithread work nTimes redfunc nChunks =
           TExecutor_MapReduce imt arrival1 serial work nTimes redfunc nChunks
       \<and> TExecutor_MapReduce imt arrival3 multiprocess work nTimes redfunc nChunks =
           TExecutor_MapReduce imt arrival1 serial work nTimes redfunc nChunks
       \<and> TExecutor_Map_args imt multithread func args = TExecutor_Map_args imt serial func args
       \<and> TExecutor_Map_args imt multiprocess func args = TExecutor_Map_args imt serial func args"
proof -
  have maps: "TExecutor_Map_args imt multithread func args = TExecutor_Map_args imt serial func args"
    "TExecutor_Map_args imt multiprocess func args = TExecutor_Map_args imt serial func args"
    using TExecutor_new_cases(1,2)[OF assms(2)] TExecutor_new_cases(1,3)[OF assms(3)]
      TExecutor_new_cases(1,4)[OF assms(4)]
    by (simp_all add: TExecutor_Map_args_def TSequentialExecutor_Map_def
        TThreadExecutorImpl_Map_def TProcessExecutor_Map_def)
  show ?thesis
    by (simp add: maps TExecutor_MapReduce_args_flat[OF assms(1,2)]
        TExecutor_MapReduce_args_flat[OF assms(1,3)] TExecutor_MapReduce_args_flat[OF assms(1,4)]
        TExecutor_MapReduce_flat[OF assms(1,2)] TExecutor_MapReduce_flat[OF assms(1,3)]
        TExecutor_MapReduce_flat[OF assms(1,4)])
qed

text \<open>The squares of four numbers, summed: 30 under each policy, the multithread pool
  working in two chunks of which the second arrives first.\<close>

theorem backend_equivalence_witness:
  "ReductionFunction (sum_list :: int list \<Rightarrow> int)
   \<and> TExecutor_new True kSerial 2 =
     Inr \<lparr>fExecPolicy = kSerial, fThreadPool = None, fProcPool = None, fSeqPool = Some ()\<rparr>
   \<and> TExecutor_new True kMultithread 2 =
     Inr \<lparr>fExecPolicy = kMultithread, fThreadPool = Some 2, fProcPool = None, fSeqPool = None\<rparr>
   \<and> TExecutor_new True kMultiprocess 2 =
     Inr \<lparr>fExecPolicy = kMultiprocess, fThreadPool = None, fProcPool = Some 2, fSeqPool = None\<rparr>
   \<and> TExecutor_MapReduce_args True []
       \<lparr>fExecPolicy = kSerial, fThreadPool = None, fProcPool = None, fSeqPool = Some ()\<rparr>
       (\<lambda>x. returnT (x * x)) [1, 2, 3, 4 :: int] sum_list 2 () = (Inr 30, ())
   \<and> TExecutor_MapReduce_args True [1]
       \<lparr>fExecPolicy = kMultithread, fThreadPool = Some 2, fProcPool = None, fSeqPool = None\<rparr>
       (\<lambda>x. returnT (x * x)) [1, 2, 3, 4 :: int] sum_list 2 () = (Inr 30, ())
   \<and> TExecutor_MapReduce_args True []
       \<lparr>fExecPolicy = kMultiprocess, fThreadPool = None, fProcPool = Some 2, fSeqPool = None\<rparr>
       (\<lambda>x. returnT (x * x)) [1, 2, 3, 4 :: int] sum_list 2 () = (Inr 30, ())"
proof -
  let ?s = "\<lparr>fExecPolicy = kSerial, fThreadPool = None, fProcPool = None, fSeqPool = Some ()\<rparr>"
  let ?t = "\<lparr>fExecPolicy = kMultithread, fThreadPool = Some 2, fProcPool = None, fSeqPool = None\<rparr>"
  let ?p = "\<lparr>fExecPolicy = kMultiprocess, fThreadPool = None, fProcPool = Some 2, fSeqPool = None\<rparr>"
  let ?f = "(\<lambda>x. returnT (x * x)) :: int \<Rightarrow> (unit, int) task"
  have s: "TExecutor_new True kSerial 2 = Inr ?s"
    and t: "TExecutor_new True kMultithread 2 = Inr ?t"
    and p: "TExecutor_new True kMultiprocess 2 = Inr ?p"
    by (simp_all add: TExecutor_new_def Let_def)
  note be = backend_equivalence [OF ReductionFunction_sum_list s t p, where func = ?f
      and args = "[1, 2, 3, 4]" and nChunks = 2 and work = "returnT 0" and nTimes = 0
      and ?arrival1.0 = "[]" and ?arrival2.0 = "[1]" and ?arrival3.0 = "[]"]
  have plain: "bindT (mapT ?f [1, 2, 3, 4]) (\<lambda>reslist. Reduce reslist sum_list) () = (Inr 30, ())"
    by (simp add: mapT_returnT bindT_def returnT_def Reduce_def)
  from be have "TExecutor_MapReduce_args True [] ?s ?f [1, 2, 3, 4] sum_list 2 =
      bindT (mapT ?f [1, 2, 3, 4]) (\<lambda>reslist. Reduce reslist sum_list)"
    by (rule conjunct1)
  with plain have serial: "TExecutor_MapReduce_args True [] ?s ?f [1, 2, 3, 4] sum_list 2 () = (Inr 30, ())"
    by simp
  from be have "TExecutor_MapReduce_args True [1] ?t ?f [1, 2, 3, 4] sum_list 2 =
      TExecutor_MapReduce_args True [] ?s ?f [1, 2, 3, 4] sum_list 2"
    by blast
  with serial have thread: "TExecutor_MapReduce_args True [1] ?t ?f [1, 2, 3, 4] sum_list 2 () = (Inr 30, ())"
    by simp
  from be have "TExecutor_MapReduce_args True [] ?p ?f [1, 2, 3, 4] sum_list 2 =
      TExecutor_MapReduce_args True [] ?s ?f [1, 2, 3, 4] sum_list 2"
    by blast
  with serial have "TExecutor_MapReduce_args True [] ?p ?f [1, 2, 3, 4] sum_list 2 () = (Inr 30, ())"
    by simp
  with serial thread show ?thesis
    using s t p ReductionFunction_sum_list by simp
qed



section \<open>Properties of the NUMA domain tasks\<close>

lemma TThreadExecutorImpl_MapReduce_state:
  "snd (TThreadExecutorImpl_MapReduce arrival poolSize func args redfunc nChunks s) =
     snd (mapT func args s)"
proof -
  let ?cs = "chunksOf (chunkStep poolSize (length args) nChunks) args"
  have "concat ?cs = args" by (rule concat_chunks_args)
  with mapT_chunks[where func = func and cs = ?cs and s = s and redfunc = redfunc]
  show ?thesis
    by (auto simp: TThreadExecutorImpl_MapReduce_def TThreadExecutorImpl_Map_chunked_def
        bindT_def returnT_def throwT_def Reduce_def split: prod.splits sum.splits)
qed

lemma TThreadExecutorImpl_MapReduce_fails:
  assumes "mapT func args s = (Inl e, s')"
  shows "TThreadExecutorImpl_MapReduce arrival poolSize func args redfunc nChunks s = (Inl e, s')"
proof -
  let ?cs = "chunksOf (chunkStep poolSize (length args) nChunks) args"
  have "concat ?cs = args" by (rule concat_chunks_args)
  with mapT_chunks[where func = func and cs = ?cs and s = s and redfunc = redfunc] assms
  show ?thesis
    by (simp add: TThreadExecutorImpl_MapReduce_def TThreadExecutorImpl_Map_chunked_def bindT_def)
qed

lemma TThreadExecutorImpl_MapReduce_returns:
  assumes "mapT func args s = (Inr rs, s')" and "args \<noteq> []"
  shows "\<exists>x. TThreadExecutorImpl_MapReduce arrival poolSize func args redfunc nChunks s = (Inr x, s')"
proof -
  let ?cs = "chunksOf (chunkStep poolSize (length args) nChunks) args"
  have "concat ?cs = args" by (rule concat_chunks_args)
  with mapT_chunks[where func = func and cs = ?cs and s = s and redfunc = redfunc] assms(1)
  obtain rss where rss:
    "mapT (\<lambda>chunk. bindT (mapT func chunk) (\<lambda>p. returnT (redfunc p))) ?cs s = (Inr (map redfunc rss), s')"
    "concat rss = rs"
    by auto
  from assms have "rs \<noteq> []" by (auto dest: mapT_length)
  with rss(2) have "rss \<noteq> []" by auto
  then have "arrivalOrder arrival (map redfunc rss) \<noteq> []" by (simp add: arrivalOrder_Nil_iff)
  with rss(1) show ?thesis
    by (simp add: TThreadExecutorImpl_MapReduce_def TThreadExecutorImpl_Map_chunked_def
        bindT_def returnT_def Reduce_def)
qed

lemma mapT_counting:
  assumes "\<And>x w. func x w = (Inr (f x), w\<lparr>userState := Suc (userState w)\<rparr>)"
  shows "mapT func xs w = (Inr (map f xs), w\<lparr>userState := userState w + length xs\<rparr>)"
  by (induction xs arbitrary: w) (simp_all add: assms)

lemma TNUMAExecutor_new_two_nodes:
  "TNUMAExecutor_new 1 4 = \<lparr>fNDomains = 2, fDomainNThreads = 2\<rparr>"
proof -
  have "(1::nat) + 1 = 2" and "(4::nat) div 2 = 2" by simp_all
  then show ?thesis unfolding TNUMAExecutor_new_def by (simp only:)
qed

text \<open>
  C6, as stated. A domain task whose work function throws leaves the thread pinned: the
  exception passes the call that restores the affinity. Node 1 of two, three calls of a
  function that throws.
\<close>

theorem runOnNode_affinity_counterexample:
  "runOnNode (\<lambda>_. []) (TNUMAExecutor_new 1 4) (throwT WorkFailure) 3 (sum_list :: int list \<Rightarrow> int) 0 1
     \<lparr>nodeAffinity = AllNodes, userState = ()\<rparr>
   = (Inl WorkFailure, \<lparr>nodeAffinity = OneNode 1, userState = ()\<rparr>)"
proof -
  have "mapT (\<lambda>_. throwT WorkFailure) (nTimesItems 3) \<lparr>nodeAffinity = OneNode 1, userState = ()\<rparr>
          = (Inl WorkFailure :: exn + int list, \<lparr>nodeAffinity = OneNode 1, userState = ()\<rparr>)"
    by (simp add: nTimesItems_def throwT_def eval_nat_numeral)
  then show ?thesis
    by (simp add: runOnNode_def TThreadExecutorImpl_MapReduce_fails bindT_def
        numa_run_on_node_def)
qed

text \<open>
  C6, amended. Every NUMA domain task that returns normally has restored the default
  affinity before it returns, in all three forms of \<open>MapReduce\<close>, whatever the work
  function does. (When the inner \<open>MapReduce\<close> throws, the restoring call is not
  reached.)
\<close>

theorem runOnNode_restores_affinity:
  "(runOnNode arrivals this func nTimes redfunc nChunks i w = (Inr r, w')
        \<longrightarrow> nodeAffinity w' = AllNodes)
   \<and> (runOnNode_vec arrivals this vfunc args dataRanges redfunc nChunks i w = (Inr r, w')
        \<longrightarrow> nodeAffinity w' = AllNodes)
   \<and> (runOnNode_TSeq arrivals this sfunc seq redfunc nChunks i w = (Inr r, w')
        \<longrightarrow> nodeAffinity w' = AllNodes)"
proof -
  have restore: "bindT m (\<lambda>res. bindT (numa_run_on_node_mask numa_all_nodes_ptr) (\<lambda>_. returnT res)) v
                   = (Inr r, w') \<Longrightarrow> nodeAffinity w' = AllNodes"
    for m v
    by (auto simp: bindT_def returnT_def numa_run_on_node_mask_def numa_all_nodes_ptr_def
        split: prod.splits sum.splits)
  have pin: "bindT (numa_run_on_node i) (\<lambda>_. k) w = k (w\<lparr>nodeAffinity := OneNode i\<rparr>)"
    for k
    by (simp add: bindT_def numa_run_on_node_def)
  show ?thesis
    unfolding runOnNode_def runOnNode_vec_def runOnNode_TSeq_def pin
    by (blast dest: restore)
qed

theorem runOnNode_restores_affinity_witness:
  "runOnNode (\<lambda>_. []) (TNUMAExecutor_new 1 4) (returnT 1) 3 (sum_list :: int list \<Rightarrow> int) 0 1
     \<lparr>nodeAffinity = AllNodes, userState = ()\<rparr>
     = (Inr 3, \<lparr>nodeAffinity = AllNodes, userState = ()\<rparr>)
   \<and> nodeAffinity (snd (runOnNode (\<lambda>_. []) (TNUMAExecutor_new 1 4) (returnT 1) 3
       (sum_list :: int list \<Rightarrow> int) 0 1 \<lparr>nodeAffinity = AllNodes, userState = ()\<rparr>)) = AllNodes"
proof -
  let ?w = "\<lparr>nodeAffinity = AllNodes, userState = ()\<rparr>"
  let ?run = "runOnNode (\<lambda>_. []) (TNUMAExecutor_new 1 4) (returnT 1) 3 (sum_list :: int list \<Rightarrow> int) 0 1 ?w"
  have run: "?run = (Inr 3, ?w)"
    by (simp add: runOnNode_chunk_free[OF ReductionFunction_sum_list] nTimesItems_def
        mapT_returnT bindT_def returnT_def numa_run_on_node_def numa_run_on_node_mask_def
        numa_all_nodes_ptr_def sum_list_replicate Reduce_def)
  with runOnNode_restores_affinity [where arrivals = "\<lambda>_. []" and this = "TNUMAExecutor_new 1 4"
      and func = "returnT 1"
      and nTimes = 3 and redfunc = "sum_list :: int list \<Rightarrow> int" and nChunks = 0 and i = 1
      and w = ?w and r = 3 and w' = "snd ?run"]
  show ?thesis by simp
qed

text \<open>
  C1. The \<open>nTimes\<close> form of \<open>TNUMAExecutor::MapReduce\<close> hands the whole count
  \<open>nTimes\<close> to every domain. On a machine with two NUMA nodes, \<open>MapReduce\<close> with a
  function that returns 1 and counts its calls, \<open>nTimes = 10\<close> and integer sum returns 20
  after 20 calls, in whatever order the partial values arrive.
\<close>

theorem TNUMAExecutor_MapReduce_two_domains:
  "TNUMAExecutor_MapReduce arrivals (TNUMAExecutor_new 1 4)
     (\<lambda>w. (Inr (1::int), w\<lparr>userState := Suc (userState w)\<rparr>)) 10 sum_list 0
     \<lparr>nodeAffinity = AllNodes, userState = 0\<rparr>
   = (Inr 20, \<lparr>nodeAffinity = AllNodes, userState = 20\<rparr>)"
  unfolding TNUMAExecutor_new_two_nodes
proof -
  let ?one = "\<lambda>w::nat world. (Inr (1::int), w\<lparr>userState := Suc (userState w)\<rparr>)"
  let ?ex = "\<lparr>fNDomains = 2, fDomainNThreads = 2\<rparr>"
  have calls: "mapT (\<lambda>_::unit. ?one) (nTimesItems 10) w =
                 (Inr (replicate 10 1), w\<lparr>userState := userState w + 10\<rparr>)" for w
    by (subst mapT_counting[where f = "\<lambda>_. 1"]) (simp_all add: nTimesItems_def map_replicate_const)
  have node: "runOnNode arrivals ?ex ?one 10 sum_list 0 i w =
                (Inr 10, w\<lparr>nodeAffinity := AllNodes, userState := userState w + 10\<rparr>)" for i w
    by (simp add: runOnNode_chunk_free[OF ReductionFunction_sum_list] calls bindT_def
        returnT_def numa_run_on_node_def numa_run_on_node_mask_def numa_all_nodes_ptr_def
        sum_list_replicate Reduce_def)
  have "TSeq_items (0, fNDomains ?ex) = [0, 1]"
    by (simp add: TSeq_items_def upt_rec)
  then show "TNUMAExecutor_MapReduce arrivals ?ex ?one 10 sum_list 0
      \<lparr>nodeAffinity = AllNodes, userState = 0\<rparr>
      = (Inr 20, \<lparr>nodeAffinity = AllNodes, userState = 20\<rparr>)"
    by (simp add: TNUMAExecutor_MapReduce_def TProcessExecutor_MapReduce_def
        TProcessExecutor_Map_def node bindT_def returnT_def Reduce_def)
qed

text \<open>In general the work function is called \<open>fNDomains * nTimes\<close> times, whatever the
  reduction function, the chunk hint and the arrival orders.\<close>

lemma mapT_uniform_effect:
  assumes "\<And>x v. \<exists>r. func x v = (Inr r, g v)"
  shows "\<exists>rs. mapT func xs s = (Inr rs, (g ^^ length xs) s)"
proof (induction xs arbitrary: s)
  case Nil
  then show ?case by simp
next
  case (Cons x xs)
  from assms obtain r where r: "func x s = (Inr r, g s)" by blast
  from Cons.IH[of "g s"] obtain rs where "mapT func xs (g s) = (Inr rs, (g ^^ length xs) (g s))"
    by blast
  with r show ?case by (simp add: funpow_swap1)
qed

lemma Reduce_state: "snd (Reduce objs redfunc s) = s"
  by (simp add: Reduce_def throwT_def returnT_def)

lemma TNUMAExecutor_MapReduce_calls:
  fixes func :: "(nat world, 'r) task"
  assumes "\<And>w. func w = (Inr r, w\<lparr>userState := Suc (userState w)\<rparr>)"
  shows "userState (snd (TNUMAExecutor_MapReduce arrivals this func nTimes redfunc nChunks w)) =
           userState w + fNDomains this * nTimes"
proof (cases "nTimes = 0")
  case True
  have node: "runOnNode arrivals this func 0 redfunc nChunks i v =
                (Inl EmptyInput, v\<lparr>nodeAffinity := OneNode i\<rparr>)" for i v
    by (simp add: runOnNode_def nTimesItems_def TThreadExecutorImpl_MapReduce_Nil bindT_def
        numa_run_on_node_def)
  have st: "userState (snd (mapT (runOnNode arrivals this func 0 redfunc nChunks) xs w)) = userState w"
    for xs
    by (cases xs) (simp_all add: node)
  have "userState (snd (TNUMAExecutor_MapReduce arrivals this func 0 redfunc nChunks w)) =
      userState w"
  proof (cases "mapT (runOnNode arrivals this func 0 redfunc nChunks) (TSeq_items (0, fNDomains this)) w")
    case (Pair res w1)
    with st[of "TSeq_items (0, fNDomains this)"] have "userState w1 = userState w" by simp
    with Pair show ?thesis
      by (cases res)
        (simp_all add: TNUMAExecutor_MapReduce_def TProcessExecutor_MapReduce_def
          TProcessExecutor_Map_def bindT_def Reduce_state)
  qed
  with True show ?thesis by simp
next
  case False
  let ?g = "\<lambda>v::nat world. v\<lparr>nodeAffinity := AllNodes, userState := userState v + nTimes\<rparr>"
  have inner: "\<exists>x. TThreadExecutorImpl_MapReduce a p (\<lambda>_. func) (nTimesItems nTimes) redfunc c v =
                 (Inr x, v\<lparr>userState := userState v + nTimes\<rparr>)" for a p c v
  proof -
    have m: "mapT (\<lambda>_::unit. func) (nTimesItems nTimes) v =
               (Inr (map (\<lambda>_. r) (nTimesItems nTimes)), v\<lparr>userState := userState v + nTimes\<rparr>)"
      by (subst mapT_counting[where f = "\<lambda>_. r"]) (simp_all add: assms nTimesItems_def)
    from False have "nTimesItems nTimes \<noteq> []" by (simp add: nTimesItems_def)
    from TThreadExecutorImpl_MapReduce_returns[OF m this] show ?thesis .
  qed
  have node: "\<exists>x. runOnNode arrivals this func nTimes redfunc nChunks i v = (Inr x, ?g v)" for i v
  proof -
    let ?v = "v\<lparr>nodeAffinity := OneNode i\<rparr>"
    from inner[of "arrivals i" "fDomainNThreads this" "nChunks div fNDomains this" ?v]
      inner[of "arrivals i" "fDomainNThreads this" 0 ?v]
    show ?thesis
      by (auto simp: runOnNode_def bindT_def returnT_def numa_run_on_node_def
          numa_run_on_node_mask_def numa_all_nodes_ptr_def)
  qed
  have pow: "userState ((?g ^^ k) v) = userState v + k * nTimes" for k v
    by (induction k arbitrary: v) (simp_all add: funpow_swap1)
  from mapT_uniform_effect[where func = "runOnNode arrivals this func nTimes redfunc nChunks"
      and g = ?g, OF node, of "TSeq_items (0, fNDomains this)" w]
  obtain rs where "mapT (runOnNode arrivals this func nTimes redfunc nChunks)
      (TSeq_items (0, fNDomains this)) w = (Inr rs, (?g ^^ fNDomains this) w)"
    by (auto simp: TSeq_items_def)
  then show ?thesis
    by (simp add: TNUMAExecutor_MapReduce_def TProcessExecutor_MapReduce_def
        TProcessExecutor_Map_def bindT_def Reduce_state pow)
qed

text \<open>Behind the facade every item is handed to the work function once, in order, under
  each policy: the state a call leaves is the state the plain sequence of calls leaves.\<close>

lemma TExecutor_MapReduce_args_state:
  assumes "TExecutor_new imt policy n = Inr this"
  shows "snd (TExecutor_MapReduce_args imt arrival this func args redfunc nChunks s) =
           snd (mapT func args s)"
proof (cases policy)
  case kSerial
  with TExecutor_new_cases(1,2)[OF assms] show ?thesis
    by (auto simp: TExecutor_MapReduce_args_def TExecutor_Map_args_chunked_def
        TExecutor_Map_args_def TSequentialExecutor_Map_def bindT_def Reduce_state
        split: prod.splits sum.splits)
next
  case kMultithread
  with TExecutor_new_cases(1,3)[OF assms]
  have "TExecutor_MapReduce_args imt arrival this func args redfunc nChunks =
          TThreadExecutorImpl_MapReduce arrival n func args redfunc nChunks"
    by (simp add: TExecutor_MapReduce_args_def TExecutor_Map_args_chunked_def
        TThreadExecutorImpl_MapReduce_def)
  then show ?thesis by (simp add: TThreadExecutorImpl_MapReduce_state)
next
  case kMultiprocess
  with TExecutor_new_cases(1,4)[OF assms] show ?thesis
    by (auto simp: TExecutor_MapReduce_args_def TExecutor_Map_args_chunked_def
        TExecutor_Map_args_def TProcessExecutor_Map_def bindT_def Reduce_state
        split: prod.splits sum.splits)
qed

lemma TNUMAExecutor_new_domains: "1 \<le> fNDomains (TNUMAExecutor_new numa_max_node nThreads)"
  by (simp add: TNUMAExecutor_new_def)

text \<open>
  C7. Integer sum over an input of 1000 items, each giving 1. The facade returns 1000
  under each of its three policies, for every chunk hint and every arrival order of the
  partial values. The NUMA-aware executor on a machine with two NUMA nodes returns 2000,
  for every chunk hint (so for the hints 1, 4 and 0) and every arrival order: its result
  does not depend on the chunk hint, but it is not the result of the other backends,
  because the \<open>nTimes\<close> form hands all the items to every domain.
\<close>

theorem TNUMAExecutor_MapReduce_thousand_items:
  "TNUMAExecutor_MapReduce arrivals (TNUMAExecutor_new 1 4) (returnT (1::int)) 1000 sum_list nChunks
     \<lparr>nodeAffinity = AllNodes, userState = ()\<rparr>
     = (Inr 2000, \<lparr>nodeAffinity = AllNodes, userState = ()\<rparr>)
   \<and> TExecutor_new True kSerial 4 =
     Inr \<lparr>fExecPolicy = kSerial, fThreadPool = None, fProcPool = None, fSeqPool = Some ()\<rparr>
   \<and> TExecutor_MapReduce True arrival
       \<lparr>fExecPolicy = kSerial, fThreadPool = None, fProcPool = None, fSeqPool = Some ()\<rparr>
       (returnT (1::int)) 1000 sum_list nChunks () = (Inr 1000, ())
   \<and> TExecutor_new True kMultithread 4 =
     Inr \<lparr>fExecPolicy = kMultithread, fThreadPool = Some 4, fProcPool = None, fSeqPool = None\<rparr>
   \<and> TExecutor_MapReduce True arrival
       \<lparr>fExecPolicy = kMultithread, fThreadPool = Some 4, fProcPool = None, fSeqPool = None\<rparr>
       (returnT (1::int)) 1000 sum_list nChunks () = (Inr 1000, ())
   \<and> TExecutor_new True kMultiprocess 4 =
     Inr \<lparr>fExecPolicy = kMultiprocess, fThreadPool = None, fProcPool = Some 4, fSeqPool = None\<rparr>
   \<and> TExecutor_MapReduce True arrival
       \<lparr>fExecPolicy = kMultiprocess, fThreadPool = None, fProcPool = Some 4, fSeqPool = None\<rparr>
       (returnT (1::int)) 1000 sum_list nChunks () = (Inr 1000, ())"
proof -
  let ?s = "\<lparr>fExecPolicy = kSerial, fThreadPool = None, fProcPool = None, fSeqPool = Some ()\<rparr>"
  let ?t = "\<lparr>fExecPolicy = kMultithread, fThreadPool = Some 4, fProcPool = None, fSeqPool = None\<rparr>"
  let ?p = "\<lparr>fExecPolicy = kMultiprocess, fThreadPool = None, fProcPool = Some 4, fSeqPool = None\<rparr>"
  let ?ex = "\<lparr>fNDomains = 2, fDomainNThreads = 2\<rparr>"
  let ?w = "\<lparr>nodeAffinity = AllNodes, userState = ()\<rparr>"
  have s: "TExecutor_new True kSerial 4 = Inr ?s"
    and t: "TExecutor_new True kMultithread 4 = Inr ?t"
    and p: "TExecutor_new True kMultiprocess 4 = Inr ?p"
    by (simp_all add: TExecutor_new_def Let_def)
  have plain: "bindT (mapT (\<lambda>_. returnT (1::int)) (nTimesItems 1000))
                 (\<lambda>reslist. Reduce reslist sum_list) v = (Inr 1000, v)" for v :: 'v
    by (simp add: mapT_returnT nTimesItems_def bindT_def returnT_def Reduce_def
        map_replicate_const sum_list_replicate)
  have facade: "TExecutor_MapReduce True arrival this (returnT (1::int)) 1000 sum_list nChunks ()
                  = (Inr 1000, ())"
    if "TExecutor_new True policy 4 = Inr this" for policy this
    by (simp add: TExecutor_MapReduce_flat[OF ReductionFunction_sum_list that] plain)
  have plain': "bindT (mapT (\<lambda>_. returnT (1::int)) (nTimesItems 1000))
                  (\<lambda>reslist. Reduce reslist sum_list) = (returnT 1000 :: (unit world, int) task)"
    by (rule ext) (simp add: plain returnT_def)
  have node: "runOnNode arrivals ?ex (returnT (1::int)) 1000 sum_list nChunks i v =
                (Inr 1000, v\<lparr>nodeAffinity := AllNodes\<rparr>)" for i and v :: "unit world"
    unfolding runOnNode_chunk_free[OF ReductionFunction_sum_list] plain'
    by (simp add: bindT_def returnT_def numa_run_on_node_def numa_run_on_node_mask_def
        numa_all_nodes_ptr_def)
  have "TSeq_items (0, fNDomains ?ex) = [0, 1]"
    by (simp add: TSeq_items_def upt_rec)
  then have "TNUMAExecutor_MapReduce arrivals ?ex (returnT (1::int)) 1000 sum_list nChunks ?w
      = (Inr 2000, ?w)"
    by (simp add: TNUMAExecutor_MapReduce_def TProcessExecutor_MapReduce_def
        TProcessExecutor_Map_def node bindT_def returnT_def Reduce_def)
  then show ?thesis
    unfolding TNUMAExecutor_new_two_nodes
    using s t p facade[OF s] facade[OF t] facade[OF p] by simp
qed

text \<open>
  C5. The sub-range of domain \<open>i\<close> is computed from \<open>i * stride\<close>, counted from zero
  and not from the beginning of the sequence. For the sequence from 10 to 20 on two
  domains the stride is 5, the domains get the bounds \<open>(10, 5)\<close> and \<open>(10, 10)\<close>, and
  none of the items 10, ..., 19 is handed to the work function: no call is counted, and
  the call ends in the task of the first domain, whose thread pool is given a range of
  zero items.
\<close>

theorem TSeq_sequence_from_ten:
  "TSeq_stride (TNUMAExecutor_new 1 4) (10, 20) = 5
   \<and> TSeq_sequence (TNUMAExecutor_new 1 4) (10, 20) 0 = (10, 5)
   \<and> TSeq_sequence (TNUMAExecutor_new 1 4) (10, 20) 1 = (10, 10)
   \<and> TSeq_items (TSeq_sequence (TNUMAExecutor_new 1 4) (10, 20) 0) = []
   \<and> TSeq_items (TSeq_sequence (TNUMAExecutor_new 1 4) (10, 20) 1) = []
   \<and> TNUMAExecutor_MapReduce_TSeq arrivals (TNUMAExecutor_new 1 4)
       (\<lambda>i w. (Inr (int i), w\<lparr>userState := Suc (userState w)\<rparr>)) (10, 20) sum_list 4
       \<lparr>nodeAffinity = AllNodes, userState = 0\<rparr>
     = (Inl EmptyInput, \<lparr>nodeAffinity = OneNode 0, userState = 0\<rparr>)"
  unfolding TNUMAExecutor_new_two_nodes
proof -
  let ?ex = "\<lparr>fNDomains = 2, fDomainNThreads = 2\<rparr>"
  have stride: "TSeq_stride ?ex (10, 20) = 5"
    by (simp add: TSeq_stride_def usub_def uadd_def u32_def)
  have s0: "TSeq_sequence ?ex (10, 20) 0 = (10, 5)"
    and s1: "TSeq_sequence ?ex (10, 20) 1 = (10, 10)"
    by (simp_all add: TSeq_sequence_def stride umul_def uadd_def u32_def)
  have s1': "TSeq_sequence ?ex (10, 20) (Suc 0) = (10, 10)"
    using s1 by simp
  have node: "runOnNode_TSeq arrivals ?ex func (10, 20) (sum_list :: int list \<Rightarrow> int) 4 0 w =
                (Inl EmptyInput, w\<lparr>nodeAffinity := OneNode 0\<rparr>)"
    for func :: "nat \<Rightarrow> (nat world, int) task" and w
    by (simp add: runOnNode_TSeq_def s0 TSeq_items_def TThreadExecutorImpl_MapReduce_Nil
        bindT_def numa_run_on_node_def)
  have "TSeq_items (0, fNDomains ?ex) = [0, 1]"
    by (simp add: TSeq_items_def upt_rec)
  then show "TSeq_stride ?ex (10, 20) = 5
   \<and> TSeq_sequence ?ex (10, 20) 0 = (10, 5)
   \<and> TSeq_sequence ?ex (10, 20) 1 = (10, 10)
   \<and> TSeq_items (TSeq_sequence ?ex (10, 20) 0) = []
   \<and> TSeq_items (TSeq_sequence ?ex (10, 20) 1) = []
   \<and> TNUMAExecutor_MapReduce_TSeq arrivals ?ex
       (\<lambda>i w. (Inr (int i), w\<lparr>userState := Suc (userState w)\<rparr>)) (10, 20) sum_list 4
       \<lparr>nodeAffinity = AllNodes, userState = 0\<rparr>
     = (Inl EmptyInput, \<lparr>nodeAffinity = OneNode 0, userState = 0\<rparr>)"
    by (simp add: stride s0 s1' TSeq_items_def TNUMAExecutor_MapReduce_TSeq_def
        TProcessExecutor_MapReduce_def TProcessExecutor_Map_def node bindT_def)
qed

section \<open>Properties of \<open>splitData\<close>\<close>

lemma splitData_loop_diverges:
  assumes "0 < n"
  shows "splitData_loop n 0 i v = None"
proof -
  have h: "b = 0 \<longrightarrow> a = 0" if "splitData_loop a b c d = Some y" for a b c d y
    using that
    by (rule splitData_loop.raw_induct[rotated, where P = "\<lambda>a b c d y. b = 0 \<longrightarrow> a = 0"])
       (auto simp: umul_def u32_def split: if_splits)
  show ?thesis
  proof (cases "splitData_loop n 0 i v")
    case None
    then show ?thesis .
  next
    case (Some y)
    from h[OF Some] assms show ?thesis by simp
  qed
qed

lemma contiguous_spans_le: "contiguous_spans lo ss hi \<Longrightarrow> lo \<le> hi"
proof (induction ss arbitrary: lo)
  case Nil
  then show ?case by simp
next
  case (Cons sp ss)
  then have "lo < snd sp" and "snd sp \<le> hi" by auto
  then show ?case by simp
qed

lemma contiguous_spans_elems:
  assumes "contiguous_spans lo ss hi" and "hi \<le> length vec"
  shows "concat (map (span_elems vec) ss) = take (hi - lo) (drop lo vec)"
  using assms(1)
proof (induction ss arbitrary: lo)
  case Nil
  then show ?case by simp
next
  case (Cons sp ss)
  obtain a b where sp: "sp = (a, b)" by (cases sp)
  with Cons.prems have ab: "a = lo" "a < b" "contiguous_spans b ss hi" by auto
  then have "b \<le> hi" by (auto dest: contiguous_spans_le)
  have "take (hi - lo) (drop lo vec) = take (b - lo) (drop lo vec) @ take (hi - b) (drop b vec)"
  proof -
    have "hi - lo = (b - lo) + (hi - b)" using ab \<open>b \<le> hi\<close> by simp
    moreover have "drop (b - lo) (drop lo vec) = drop b vec" using ab by simp
    ultimately show ?thesis by (simp add: take_add)
  qed
  with Cons.IH[OF ab(3)] sp ab(1) show ?case by (simp add: span_elems_def)
qed

lemma splitData_loop_returns:
  assumes "0 < stride" and "i * stride < n" and "n < 2 ^ 32"
  shows "\<exists>ss. splitData_loop n stride i v = Some (v @ ss) \<and> ss \<noteq> []
           \<and> contiguous_spans (i * stride) ss n \<and> (i + length ss - 1) * stride < n"
  using assms(2)
proof (induction "n - i * stride" arbitrary: i v rule: less_induct)
  case less
  have i_lt: "i * stride < 2 ^ 32" using less.prems assms(3) by simp
  then have mi: "umul i stride = i * stride" by (simp add: umul_def u32_def)
  show ?case
  proof (cases "i * stride < n - stride")
    case True
    then have next_lt: "(i + 1) * stride < n" by (simp add: algebra_simps)
    have "i + 1 \<le> (i + 1) * stride" using assms(1) by (cases stride) auto
    with next_lt assms(3) have "i + 1 < 2 ^ 32" by linarith
    then have ai: "uadd i (Suc 0) = Suc i" by (simp add: uadd_def u32_def)
    have mi': "umul (Suc i) stride = (i + 1) * stride"
      using next_lt assms(3) by (simp add: umul_def u32_def)
    have "n - (i + 1) * stride < n - i * stride"
      using next_lt assms(1) by (simp add: algebra_simps)
    from less.hyps[OF this next_lt, of "v @ [(i * stride, (i + 1) * stride)]"]
    obtain ss where ss: "splitData_loop n stride (i + 1) (v @ [(i * stride, (i + 1) * stride)])
                           = Some ((v @ [(i * stride, (i + 1) * stride)]) @ ss)"
      "ss \<noteq> []" "contiguous_spans ((i + 1) * stride) ss n"
      "(i + 1 + length ss - 1) * stride < n"
      by blast
    let ?ss = "(i * stride, (i + 1) * stride) # ss"
    have "splitData_loop n stride i v = Some (v @ ?ss)"
      using True ss(1) by (subst splitData_loop.simps) (simp add: mi ai mi')
    moreover have "contiguous_spans (i * stride) ?ss n"
      using ss(3) assms(1) by simp
    moreover have "(i + length ?ss - 1) * stride < n"
      using ss(4) by simp
    ultimately show ?thesis by blast
  next
    case False
    then have "splitData_loop n stride i v = Some (v @ [(i * stride, n)])"
      by (subst splitData_loop.simps) (simp add: mi)
    moreover have "contiguous_spans (i * stride) [(i * stride, n)] n"
      using less.prems by simp
    ultimately show ?thesis using less.prems by auto
  qed
qed

lemma stride_no_overflow:
  assumes "1 \<le> d" and "n + d \<le> 2 ^ 32"
  shows "usub (uadd (u32 n) d) 1 = n + d - 1"
proof -
  have n: "u32 n = n" using assms by (simp add: u32_def)
  show ?thesis
  proof (cases "n + d = 2 ^ 32")
    case True
    then have "uadd n d = 0" by (simp add: uadd_def u32_def)
    then have "uadd (u32 n) d = 0" by (simp only: n)
    then show ?thesis using True by (simp add: usub_def u32_def)
  next
    case False
    with assms have lt: "n + d < 2 ^ 32" by simp
    then have "uadd n d = n + d" by (simp add: uadd_def u32_def)
    then have "uadd (u32 n) d = n + d" by (simp only: n)
    moreover have "(n + d + 2 ^ 32 - Suc 0) mod 2 ^ 32 = n + d - 1"
    proof -
      have e: "n + d + 2 ^ 32 - Suc 0 = (n + d - 1) + 2 ^ 32" using assms(1) by simp
      have "(n + d - 1 + 2 ^ 32) mod 2 ^ 32 = (n + d - 1) mod 2 ^ 32" by (rule mod_add_self2)
      also have "\<dots> = n + d - 1" using lt by (intro mod_less) simp
      finally show ?thesis by (simp only: e)
    qed
    ultimately show ?thesis by (simp add: usub_def u32_def)
  qed
qed

lemma ceil_div_bounds:
  assumes "1 \<le> (d::nat)" and "1 \<le> n"
  shows "0 < (n + d - 1) div d" and "n \<le> d * ((n + d - 1) div d)"
proof -
  show "0 < (n + d - 1) div d" using assms by (simp add: div_greater_zero_iff)
  have "n + d - 1 = d * ((n + d - 1) div d) + (n + d - 1) mod d" by simp
  moreover have "(n + d - 1) mod d \<le> d - 1"
  proof -
    have "(n + d - 1) mod d < d" using assms(1) by (intro mod_less_divisor) simp
    then show ?thesis by simp
  qed
  ultimately show "n \<le> d * ((n + d - 1) div d)" using assms by linarith
qed

lemma splitData_partition_aux:
  assumes "vec \<noteq> []" and "1 \<le> fNDomains this" and "length vec + fNDomains this \<le> 2 ^ 32"
  shows "\<exists>spans. splitData this vec = Some spans \<and> 1 \<le> length spans
           \<and> length spans \<le> fNDomains this \<and> contiguous_spans 0 spans (length vec)
           \<and> concat (map (span_elems vec) spans) = vec"
proof -
  let ?n = "length vec" and ?d = "fNDomains this"
  let ?stride = "(?n + ?d - 1) div ?d"
  have n: "1 \<le> ?n" using assms(1) by (cases vec) auto
  have lt: "?n < 2 ^ 32" using assms(2,3) by linarith
  have stride: "usub (uadd (u32 ?n) ?d) 1 div ?d = ?stride"
    by (simp only: stride_no_overflow[OF assms(2,3)])
  from ceil_div_bounds[OF assms(2) n] have pos: "0 < ?stride" and cover: "?n \<le> ?d * ?stride" .
  from splitData_loop_returns[OF pos _ lt, of 0 "[]"] n assms(1)
  obtain ss where ss: "splitData_loop ?n ?stride 0 [] = Some ss" "ss \<noteq> []"
    "contiguous_spans 0 ss ?n" "(length ss - 1) * ?stride < ?n"
    by auto
  have "splitData this vec = Some ss"
    unfolding splitData_def Let_def stride by (rule ss(1))
  moreover have "1 \<le> length ss" using ss(2) by (cases ss) auto
  moreover have "length ss \<le> ?d"
  proof (rule ccontr)
    assume "\<not> length ss \<le> ?d"
    then have "?d \<le> length ss - 1" by simp
    then have "?d * ?stride \<le> (length ss - 1) * ?stride" by (rule mult_le_mono1)
    with ss(4) cover show False by linarith
  qed
  moreover have "concat (map (span_elems vec) ss) = vec"
    using contiguous_spans_elems[OF ss(3), of vec] by simp
  ultimately show ?thesis using ss(3) by blast
qed

lemma chunkStep_one: "chunkStep poolSize (Suc 0) nChunks = Suc 0"
  by (simp add: chunkStep_def Let_def automaticChunks_def)

lemma arrivalOrder_single: "arrivalOrder picks [y] = [y]"
  by (cases picks) simp_all

text \<open>
  C9, as stated. \<open>nToProcess\<close> and \<open>stride\<close> are \<open>unsigned\<close>. For a vector of
  \<open>2 ^ 32 - 1\<close> elements and two domains, \<open>nToProcess + fNDomains - 1\<close> wraps to 0, the
  stride is 0, and the loop condition \<open>i*stride < av.size() - stride\<close> holds for every
  \<open>i\<close>: \<open>splitData\<close> does not return.
\<close>

theorem splitData_partition_counterexample:
  "replicate 4294967295 () \<noteq> []
   \<and> 1 \<le> fNDomains \<lparr>fNDomains = 2, fDomainNThreads = 2\<rparr>
   \<and> splitData \<lparr>fNDomains = 2, fDomainNThreads = 2\<rparr> (replicate 4294967295 ()) = None"
proof -
  have "usub (uadd (u32 4294967295) 2) 1 div 2 = 0"
    by (simp add: usub_def uadd_def u32_def)
  then show ?thesis
    by (simp add: splitData_def Let_def splitData_loop_diverges)
qed

text \<open>
  C9, amended. For every non-empty vector and every domain count \<open>fNDomains \<ge> 1\<close> with
  \<open>vec.size() + fNDomains - 1 < 2 ^ 32\<close>, \<open>splitData\<close> returns \<open>k\<close> spans,
  \<open>1 \<le> k \<le> fNDomains\<close>, that are non-empty, contiguous, pairwise disjoint and in
  input order, and whose elements together are exactly the vector. \<open>k\<close> can be smaller
  than \<open>fNDomains\<close>: a vector of one element on two domains gives one span, and the
  vector form of \<open>MapReduce\<close>, which reads \<open>dataRanges[i]\<close> for every domain, then
  reads past the end of \<open>dataRanges\<close> in the task of domain 1.
\<close>

theorem splitData_partition:
  assumes "vec \<noteq> []" and "1 \<le> fNDomains this" and "length vec + fNDomains this \<le> 2 ^ 32"
  shows "(\<exists>spans. splitData this vec = Some spans \<and> 1 \<le> length spans
            \<and> length spans \<le> fNDomains this \<and> contiguous_spans 0 spans (length vec)
            \<and> concat (map (span_elems vec) spans) = vec)
       \<and> splitData \<lparr>fNDomains = 2, fDomainNThreads = t\<rparr> [x] = Some [(0, 1)]
       \<and> TNUMAExecutor_MapReduce_vec arrivals \<lparr>fNDomains = 2, fDomainNThreads = t\<rparr>
           (\<lambda>a. returnT (f a)) [x] redfunc nChunks w
         = Some (Inl OutOfBounds, w\<lparr>nodeAffinity := OneNode 1\<rparr>)"
proof -
  let ?ex = "\<lparr>fNDomains = 2, fDomainNThreads = t\<rparr>"
  have "usub (uadd (u32 (length [x])) 2) 1 div 2 = 1"
    by (simp add: usub_def uadd_def u32_def)
  then have one: "splitData ?ex [x] = Some [(0, 1)]"
    by (simp add: splitData_def Let_def splitData_loop.simps umul_def u32_def)
  have inner: "TThreadExecutorImpl_MapReduce a p (\<lambda>a. returnT (f a)) [x] redfunc c v =
                 (Inr (redfunc [redfunc [f x]]), v)" for a p c v
    by (simp add: TThreadExecutorImpl_MapReduce_def TThreadExecutorImpl_Map_chunked_def
        chunkStep_one arrivalOrder_single bindT_def returnT_def Reduce_def)
  have node0: "runOnNode_vec arrivals ?ex (\<lambda>a. returnT (f a)) [x] [(0, Suc 0)] redfunc nChunks 0 w =
                 (Inr (redfunc [redfunc [f x]]), w\<lparr>nodeAffinity := AllNodes\<rparr>)"
    by (simp add: runOnNode_vec_def span_elems_def inner bindT_def returnT_def
        numa_run_on_node_def numa_run_on_node_mask_def numa_all_nodes_ptr_def)
  have node1: "runOnNode_vec arrivals ?ex (\<lambda>a. returnT (f a)) [x] [(0, Suc 0)] redfunc nChunks (Suc 0) v =
                 (Inl OutOfBounds, v\<lparr>nodeAffinity := OneNode 1\<rparr>)" for v
    by (simp add: runOnNode_vec_def bindT_def throwT_def numa_run_on_node_def)
  have "TSeq_items (0, fNDomains ?ex) = [0, Suc 0]"
    by (simp add: TSeq_items_def upt_rec)
  then have "TNUMAExecutor_MapReduce_vec arrivals ?ex (\<lambda>a. returnT (f a)) [x] redfunc nChunks w
      = Some (Inl OutOfBounds, w\<lparr>nodeAffinity := OneNode 1\<rparr>)"
    by (simp add: TNUMAExecutor_MapReduce_vec_def one TProcessExecutor_MapReduce_def
        TProcessExecutor_Map_def node0 node1 bindT_def)
  with splitData_partition_aux[OF assms] one show ?thesis by blast
qed

theorem splitData_partition_witness:
  "[10, 20, 30, 40, 50 :: nat] \<noteq> []
   \<and> 1 \<le> fNDomains \<lparr>fNDomains = 2, fDomainNThreads = 2\<rparr>
   \<and> length [10, 20, 30, 40, 50 :: nat] + fNDomains \<lparr>fNDomains = 2, fDomainNThreads = 2\<rparr> \<le> 2 ^ 32
   \<and> splitData \<lparr>fNDomains = 2, fDomainNThreads = 2\<rparr> [10, 20, 30, 40, 50 :: nat]
       = Some [(0, 3), (3, 5)]
   \<and> (\<exists>spans. splitData \<lparr>fNDomains = 2, fDomainNThreads = 2\<rparr> [10, 20, 30, 40, 50 :: nat]
         = Some spans
       \<and> 1 \<le> length spans \<and> length spans \<le> 2
       \<and> contiguous_spans 0 spans 5
       \<and> concat (map (span_elems [10, 20, 30, 40, 50 :: nat]) spans) = [10, 20, 30, 40, 50])"
proof -
  let ?ex = "\<lparr>fNDomains = 2, fDomainNThreads = 2\<rparr>"
  let ?vec = "[10, 20, 30, 40, 50 :: nat]"
  have pre: "?vec \<noteq> []" "1 \<le> fNDomains ?ex" "length ?vec + fNDomains ?ex \<le> 2 ^ 32"
    by simp_all
  have "usub (uadd (u32 (length ?vec)) 2) 1 div 2 = 3"
    by (simp add: usub_def uadd_def u32_def)
  then have split: "splitData ?ex ?vec = Some [(0, 3), (3, 5)]"
    by (simp add: splitData_def Let_def splitData_loop.simps umul_def uadd_def u32_def)
  from splitData_partition [OF pre, where t = 2 and x = "0::nat" and f = "\<lambda>a. a"
      and redfunc = sum_list and nChunks = 0 and arrivals = "\<lambda>_. []"
      and w = "\<lparr>nodeAffinity = AllNodes, userState = ()\<rparr>"]
  show ?thesis using pre split by simp
qed

text \<open>
  For a sequence that begins at 0, as in the calls of \<open>FitUtil.h\<close>, the sub-ranges of
  the \<open>TSeq\<close> form do tile the sequence, within the range of \<open>unsigned\<close>.
\<close>

lemma TSeq_stride_from_zero:
  assumes "1 \<le> fNDomains this" and "e + fNDomains this \<le> 2 ^ 32"
  shows "TSeq_stride this (0, e) = (e + fNDomains this - 1) div fNDomains this"
proof -
  have "e < 2 ^ 32" using assms by linarith
  then have "usub e 0 = u32 e" by (simp add: usub_def u32_def)
  then show ?thesis
    by (simp only: TSeq_stride_def fst_conv snd_conv stride_no_overflow[OF assms])
qed

lemma TSeq_sequence_from_zero:
  assumes "1 \<le> fNDomains this" and "e + fNDomains this \<le> 2 ^ 32" and "fNDomains this < 2 ^ 32"
  shows "concat (map (\<lambda>i. TSeq_items (TSeq_sequence this (0, e) i)) (TSeq_items (0, fNDomains this)))
           = TSeq_items (0, e)"
proof -
  let ?d = "fNDomains this"
  let ?s = "(e + ?d - 1) div ?d"
  have ds: "?d * ?s \<le> e + ?d - 1" by simp
  have cover: "e \<le> ?d * ?s"
  proof (cases "e = 0")
    case True
    then show ?thesis by simp
  next
    case False
    then show ?thesis using ceil_div_bounds(2)[OF assms(1), of e] by simp
  qed
  have seq: "TSeq_items (TSeq_sequence this (0, e) i) = [i * ?s ..< min ((i + 1) * ?s) e]"
    if "i < ?d" for i
  proof -
    have "(i + 1) * ?s \<le> ?d * ?s" using that by (intro mult_le_mono1) simp
    moreover have "e + ?d - 1 < 2 ^ 32" using assms by linarith
    ultimately have lt: "(i + 1) * ?s < 2 ^ 32" using ds by linarith
    then have "i * ?s < 2 ^ 32" by (simp add: algebra_simps)
    moreover have "i + 1 < 2 ^ 32" using that assms by linarith
    ultimately show ?thesis
      using lt
      by (simp add: TSeq_sequence_def TSeq_stride_from_zero[OF assms(1,2)] TSeq_items_def Let_def
          umul_def uadd_def u32_def)
  qed
  have "concat (map (\<lambda>i. TSeq_items (TSeq_sequence this (0, e) i)) [0 ..< k]) = [0 ..< min (k * ?s) e]"
    if "k \<le> ?d" for k
    using that
  proof (induction k)
    case 0
    then show ?case by simp
  next
    case (Suc k)
    then have IH: "concat (map (\<lambda>i. TSeq_items (TSeq_sequence this (0, e) i)) [0 ..< k])
                     = [0 ..< min (k * ?s) e]"
      and k: "k < ?d" by simp_all
    have "[0 ..< min (k * ?s) e] @ [k * ?s ..< min ((k + 1) * ?s) e] = [0 ..< min (Suc k * ?s) e]"
    proof (cases "k * ?s \<le> e")
      case True
      then have "min (k * ?s) e = k * ?s" by simp
      moreover have "k * ?s \<le> min ((k + 1) * ?s) e" using True by simp
      moreover define m where "m = min ((k + 1) * ?s) e"
      ultimately have "k * ?s \<le> m" and a: "min (k * ?s) e = k * ?s" by simp_all
      then obtain j where j: "m = k * ?s + j" using le_Suc_ex by blast
      have "[0 ..< k * ?s + j] = [0 ..< k * ?s] @ [k * ?s ..< k * ?s + j]"
        by (rule upt_add_eq_append) simp
      then show ?thesis using a j by (simp add: m_def)
    next
      case False
      then show ?thesis by (simp add: min_def)
    qed
    with IH seq[OF k] show ?case by simp
  qed
  from this[of ?d] cover show ?thesis
    by (simp add: TSeq_items_def min_def)
qed

section \<open>Properties of the fit evaluators\<close>

lemma serialLoop_mapFunction:
  "serialLoop add (mapFunction evalItem) items res st =
     (Inr (foldl add res (map evalItem items)),
      st\<lparr>nPoints := fold (\<lambda>_ k. uadd k 1) items (nPoints st)\<rparr>)"
proof (induction items arbitrary: res st)
  case Nil
  then show ?case by simp
next
  case (Cons i items)
  have "serialLoop add (mapFunction evalItem) (i # items) res st =
          serialLoop add (mapFunction evalItem) items (add res (evalItem i))
            (st\<lparr>nPoints := uadd (nPoints st) 1\<rparr>)"
    by (simp add: mapFunction_def)
  then show ?case
    by (simp add: Cons.IH)
qed

lemma serialLoop_three:
  "serialLoop add (mapFunction evalItem) (TSeq_items (0, 3)) res \<lparr>nPoints = k, errorLog = l\<rparr> =
     (Inr (add (add (add res (evalItem 0)) (evalItem 1)) (evalItem 2)),
      \<lparr>nPoints = uadd (uadd (uadd k 1) 1) 1, errorLog = l\<rparr>)"
  unfolding serialLoop_mapFunction
  by (simp add: TSeq_items_def eval_nat_numeral)

text \<open>
  C10, as stated. \<open>EvalLogL\<close> has a second normal return: when \<open>extended\<close> is set, the
  data has no range and the function is not zero at infinity, it logs an error and
  returns 0 before \<open>nPoints\<close> is reset. Three items under the serial policy, \<open>nPoints\<close>
  zero on entry: \<open>nPoints\<close> is 3 on return.
\<close>

theorem EvalLogL_nPoints_counterexample:
  "EvalLogL (\<lambda>i. \<lparr>logvalue = 1 :: int, weight = 0, weight2 = 0\<rparr>)
     (\<lambda>func args. TThreadExecutorImpl_MapReduce [] 4 func (TSeq_items args)) (\<lambda>nEvents. 1)
     3 1 0 False True 0 0 \<lparr>nPoints = 0, errorLog = []\<rparr>
   = (Inr ReturnZero,
      \<lparr>nPoints = 3,
       errorLog = [''A range has not been set and the function is not zero at +/- inf'']\<rparr>)"
  by (simp add: EvalLogL_def serialLoop_three bindT_def returnT_def Error_def uadd_def u32_def)

text \<open>The early return of \<open>EvalLogL\<close>: what it returns and the state it leaves.\<close>

lemma EvalLogL_early_return:
  fixes evalItem :: "nat \<Rightarrow> ('v::{zero,plus}) LikelihoodAux"
  assumes call: "EvalLogL evalItem pool_MapReduce setAutomaticChunking n vecSize rangeSize
      zeroAtInfinity extended executionPolicy nChunks st = (Inr res, st')"
    and cond: "extended \<and> rangeSize = 0 \<and> \<not> zeroAtInfinity"
  shows "res = ReturnZero
      \<and> (executionPolicy = 0 \<longrightarrow>
           st' = st\<lparr>nPoints := fold (\<lambda>_ k. uadd k 1) (TSeq_items (0, n div vecSize)) (nPoints st),
                     errorLog := errorLog st @ [''A range has not been set and the function is not zero at +/- inf'']\<rparr>)
      \<and> (executionPolicy = 1 \<longrightarrow>
           (\<exists>sums st1.
              pool_MapReduce (mapFunction evalItem) (0, n div vecSize)
                (\<lambda>objs. foldl LikelihoodAux_plus LikelihoodAux_zero objs)
                (if nChunks \<noteq> 0 then nChunks else setAutomaticChunking (n div vecSize)) st
                = (Inr sums, st1)
            \<and> st' = st1\<lparr>errorLog := errorLog st1 @ [''A range has not been set and the function is not zero at +/- inf'']\<rparr>))
      \<and> (executionPolicy = 2 \<longrightarrow> st' = st\<lparr>errorLog := errorLog st @ [''A range has not been set and the function is not zero at +/- inf'']\<rparr>)
      \<and> (2 < executionPolicy \<longrightarrow> st' = st\<lparr>errorLog := errorLog st @ [''Execution policy unknown. Avalaible choices: 0: Serial (default) 1: MultiThread 2: MultiProcess'', ''A range has not been set and the function is not zero at +/- inf'']\<rparr>)
      \<and> errorLog st' \<noteq> []
      \<and> last (errorLog st') = ''A range has not been set and the function is not zero at +/- inf''"
proof -
  let ?msg = "''A range has not been set and the function is not zero at +/- inf''"
  define dispatch where "dispatch =
     (if executionPolicy = 0 then
              serialLoop LikelihoodAux_plus (mapFunction evalItem) (TSeq_items (0, n div vecSize))
                LikelihoodAux_zero
            else if executionPolicy = 1 then
              (let chunks = (if nChunks \<noteq> 0 then nChunks else setAutomaticChunking (n div vecSize))
               in pool_MapReduce (mapFunction evalItem) (0, n div vecSize)
                    (\<lambda>objs. foldl LikelihoodAux_plus LikelihoodAux_zero objs) chunks)
            else if executionPolicy = 2 then
              returnT LikelihoodAux_zero
            else
              bindT (Error ''Execution policy unknown. Avalaible choices: 0: Serial (default) 1: MultiThread 2: MultiProcess'')
                (\<lambda>_. returnT LikelihoodAux_zero))"
  have "EvalLogL evalItem pool_MapReduce setAutomaticChunking n vecSize rangeSize
      zeroAtInfinity extended executionPolicy nChunks =
      bindT dispatch (\<lambda>sums. bindT (Error ?msg) (\<lambda>_. returnT ReturnZero))"
    using cond unfolding EvalLogL_def dispatch_def by (simp only: Let_def if_True if_False simp_thms less_irrefl)
  with call have "bindT dispatch (\<lambda>sums. bindT (Error ?msg) (\<lambda>_. returnT ReturnZero)) st = (Inr res, st')"
    by simp
  then obtain sums st1 where d: "dispatch st = (Inr sums, st1)"
    and st': "st' = st1\<lparr>errorLog := errorLog st1 @ [?msg]\<rparr>" and res: "res = ReturnZero"
    by (auto simp: bindT_def returnT_def Error_def split: prod.splits sum.splits)
  have p0: "st1 = st\<lparr>nPoints := fold (\<lambda>_ k. uadd k 1) (TSeq_items (0, n div vecSize)) (nPoints st)\<rparr>"
    if "executionPolicy = 0"
    using d that by (simp add: dispatch_def serialLoop_mapFunction)
  have p1: "pool_MapReduce (mapFunction evalItem) (0, n div vecSize)
                (\<lambda>objs. foldl LikelihoodAux_plus LikelihoodAux_zero objs)
                (if nChunks \<noteq> 0 then nChunks else setAutomaticChunking (n div vecSize)) st
                = (Inr sums, st1)"
    if "executionPolicy = 1"
    using d that by (simp add: dispatch_def Let_def)
  have p2: "st1 = st" if "executionPolicy = 2"
    using d that by (simp add: dispatch_def returnT_def)
  have p3: "st1 = st\<lparr>errorLog := errorLog st @ [''Execution policy unknown. Avalaible choices: 0: Serial (default) 1: MultiThread 2: MultiProcess'']\<rparr>"
    if "2 < executionPolicy"
    using d that by (auto simp: dispatch_def returnT_def bindT_def Error_def)
  show ?thesis
    using res st' p0 p1 p2 p3 by auto
qed

text \<open>
  C10, amended. Every call of \<open>EvalLogL\<close> that returns through its final return
  statement leaves \<open>nPoints\<close> at 0, whatever the execution policy, the data size and
  the number of items evaluated. The only other normal return is the early \<open>return 0\<close>,
  taken when \<open>extended\<close> is set, no range is set and the function is not zero at
  infinity: it comes after the error message, which is then the last entry of the log,
  and it leaves \<open>nPoints\<close> as the evaluation left it (incremented once per item under
  the serial policy, as the executor's call left it under the multithread policy,
  untouched otherwise). Every call of \<open>EvalChi2\<close> that returns normally leaves
  \<open>nPoints\<close> at \<open>data.Size()\<close>.
\<close>

theorem EvalLogL_EvalChi2_nPoints:
  "(EvalLogL evalItem pool_MapReduce setAutomaticChunking n vecSize rangeSize zeroAtInfinity
      extended executionPolicy nChunks st = (Inr res, st')
    \<longrightarrow> (res = ReturnZero \<longrightarrow>
           extended \<and> rangeSize = 0 \<and> \<not> zeroAtInfinity
         \<and> errorLog st' \<noteq> []
         \<and> last (errorLog st') =
             ''A range has not been set and the function is not zero at +/- inf''
         \<and> (executionPolicy = 0 \<longrightarrow>
              st' = st\<lparr>nPoints := fold (\<lambda>_ k. uadd k 1) (TSeq_items (0, n div vecSize)) (nPoints st),
                        errorLog := errorLog st @
                          [''A range has not been set and the function is not zero at +/- inf'']\<rparr>)
         \<and> (executionPolicy = 1 \<longrightarrow>
              (\<exists>sums st1.
                 pool_MapReduce (mapFunction evalItem) (0, n div vecSize)
                   (\<lambda>objs. foldl LikelihoodAux_plus LikelihoodAux_zero objs)
                   (if nChunks \<noteq> 0 then nChunks else setAutomaticChunking (n div vecSize)) st
                   = (Inr sums, st1)
               \<and> st' = st1\<lparr>errorLog := errorLog st1 @
                          [''A range has not been set and the function is not zero at +/- inf'']\<rparr>))
         \<and> (executionPolicy = 2 \<longrightarrow>
              st' = st\<lparr>errorLog := errorLog st @
                          [''A range has not been set and the function is not zero at +/- inf'']\<rparr>)
         \<and> (2 < executionPolicy \<longrightarrow>
              st' = st\<lparr>errorLog := errorLog st @
                          [''Execution policy unknown. Avalaible choices: 0: Serial (default) 1: MultiThread 2: MultiProcess'',
                           ''A range has not been set and the function is not zero at +/- inf'']\<rparr>))
      \<and> (res \<noteq> ReturnZero \<longrightarrow> nPoints st' = 0))
   \<and> (EvalChi2 evalChiItem pool_MapReduce' setAutomaticChunking n vecSize unsupportedFitOpt
      executionPolicy nChunks st = (Inr chisq, st'')
    \<longrightarrow> nPoints st'' = n)"
  (is "(?call = _ \<longrightarrow> ?early_or_final) \<and> (_ \<longrightarrow> ?chi2)")
proof -
  have final: "res \<noteq> ReturnZero \<and> nPoints st' = 0"
    if "?call = (Inr res, st')" and "\<not> (extended \<and> rangeSize = 0 \<and> \<not> zeroAtInfinity)"
  proof -
    from that have "res \<noteq> ReturnZero"
      by (auto simp: EvalLogL_def Let_def bindT_def returnT_def split: prod.splits sum.splits if_splits)
    moreover from that have "nPoints st' = 0"
      by (auto simp: EvalLogL_def Let_def bindT_def returnT_def split: prod.splits sum.splits if_splits)
    ultimately show ?thesis by simp
  qed
  have logl: ?early_or_final if call: "?call = (Inr res, st')"
  proof (cases "extended \<and> rangeSize = 0 \<and> \<not> zeroAtInfinity")
    case True
    from EvalLogL_early_return[OF call True] True show ?thesis by blast
  next
    case False
    from final[OF call False] show ?thesis by blast
  qed
  have chi2: ?chi2
    if "EvalChi2 evalChiItem pool_MapReduce' setAutomaticChunking n vecSize unsupportedFitOpt
      executionPolicy nChunks st = (Inr chisq, st'')"
    using that
    by (auto simp: EvalChi2_def Let_def bindT_def returnT_def Error_def
        split: prod.splits sum.splits if_splits)
  from logl chi2 show ?thesis by blast
qed

text \<open>Three items under the serial policy, \<open>nPoints\<close> 7 on entry: 0 after the final
  return of \<open>EvalLogL\<close>, 10 and one error message after its early return, 3 after
  \<open>EvalChi2\<close>.\<close>

theorem EvalLogL_EvalChi2_nPoints_witness:
  "EvalLogL (\<lambda>i. \<lparr>logvalue = 1 :: int, weight = 0, weight2 = 0\<rparr>)
     (\<lambda>func args. TThreadExecutorImpl_MapReduce [] 4 func (TSeq_items args)) (\<lambda>nEvents. 1)
     3 1 0 False False 0 0 \<lparr>nPoints = 7, errorLog = []\<rparr>
   = (Inr (ReturnMinusLogL \<lparr>logvalue = 3, weight = 0, weight2 = 0\<rparr> False),
      \<lparr>nPoints = 0, errorLog = []\<rparr>)
   \<and> EvalChi2 (\<lambda>i. 1 :: int)
     (\<lambda>func args. TThreadExecutorImpl_MapReduce [] 4 func (TSeq_items args)) (\<lambda>nEvents. 1)
     3 1 False 0 0 \<lparr>nPoints = 7, errorLog = []\<rparr>
   = (Inr 3, \<lparr>nPoints = 3, errorLog = []\<rparr>)
   \<and> nPoints (snd (EvalLogL (\<lambda>i. \<lparr>logvalue = 1 :: int, weight = 0, weight2 = 0\<rparr>)
     (\<lambda>func args. TThreadExecutorImpl_MapReduce [] 4 func (TSeq_items args)) (\<lambda>nEvents. 1)
     3 1 0 False False 0 0 \<lparr>nPoints = 7, errorLog = []\<rparr>)) = 0
   \<and> fst (EvalLogL (\<lambda>i. \<lparr>logvalue = 1 :: int, weight = 0, weight2 = 0\<rparr>)
     (\<lambda>func args. TThreadExecutorImpl_MapReduce [] 4 func (TSeq_items args)) (\<lambda>nEvents. 1)
     3 1 0 False True 0 0 \<lparr>nPoints = 7, errorLog = []\<rparr>) = Inr ReturnZero
   \<and> snd (EvalLogL (\<lambda>i. \<lparr>logvalue = 1 :: int, weight = 0, weight2 = 0\<rparr>)
     (\<lambda>func args. TThreadExecutorImpl_MapReduce [] 4 func (TSeq_items args)) (\<lambda>nEvents. 1)
     3 1 0 False True 0 0 \<lparr>nPoints = 7, errorLog = []\<rparr>)
     = \<lparr>nPoints = 10,
        errorLog = [''A range has not been set and the function is not zero at +/- inf'']\<rparr>"
proof -
  let ?pool = "\<lambda>func args. TThreadExecutorImpl_MapReduce [] 4 func (TSeq_items args)"
  let ?item = "\<lambda>i::nat. \<lparr>logvalue = 1 :: int, weight = 0, weight2 = 0\<rparr>"
  let ?st = "\<lparr>nPoints = 7, errorLog = []\<rparr>"
  let ?logl = "EvalLogL ?item ?pool (\<lambda>nEvents. 1) 3 1 0 False False 0 0 ?st"
  let ?early = "EvalLogL ?item ?pool (\<lambda>nEvents. 1) 3 1 0 False True 0 0 ?st"
  let ?chi2 = "EvalChi2 (\<lambda>i. 1 :: int) ?pool (\<lambda>nEvents. 1) 3 1 False 0 0 ?st"
  have l: "?logl = (Inr (ReturnMinusLogL \<lparr>logvalue = 3, weight = 0, weight2 = 0\<rparr> False),
      \<lparr>nPoints = 0, errorLog = []\<rparr>)"
    by (simp add: EvalLogL_def serialLoop_three bindT_def returnT_def
        LikelihoodAux_plus_def LikelihoodAux_zero_def)
  have c: "?chi2 = (Inr 3, \<lparr>nPoints = 3, errorLog = []\<rparr>)"
    by (simp add: EvalChi2_def serialLoop_three bindT_def returnT_def)
  have e: "?early = (Inr ReturnZero, \<lparr>nPoints = 10,
      errorLog = [''A range has not been set and the function is not zero at +/- inf'']\<rparr>)"
    by (simp add: EvalLogL_def serialLoop_three bindT_def returnT_def Error_def uadd_def u32_def)
  from EvalLogL_EvalChi2_nPoints [where evalItem = ?item and pool_MapReduce = ?pool
      and setAutomaticChunking = "\<lambda>nEvents. 1" and n = 3 and vecSize = 1 and rangeSize = 0
      and zeroAtInfinity = False and extended = False and executionPolicy = 0 and nChunks = 0
      and st = ?st and res = "ReturnMinusLogL \<lparr>logvalue = 3, weight = 0, weight2 = 0\<rparr> False"
      and st' = "snd ?logl" and evalChiItem = "\<lambda>i. 1 :: int" and pool_MapReduce' = ?pool
      and unsupportedFitOpt = False and chisq = 3 and st'' = "snd ?chi2"] l c
  have final: "nPoints (snd ?logl) = 0" by simp
  from EvalLogL_EvalChi2_nPoints [where evalItem = ?item and pool_MapReduce = ?pool
      and setAutomaticChunking = "\<lambda>nEvents. 1" and n = 3 and vecSize = 1 and rangeSize = 0
      and zeroAtInfinity = False and extended = True and executionPolicy = 0 and nChunks = 0
      and st = ?st and res = ReturnZero and st' = "snd ?early" and evalChiItem = "\<lambda>i. 1 :: int"
      and pool_MapReduce' = ?pool and unsupportedFitOpt = False and chisq = 3
      and st'' = "snd ?chi2"] e
  have early: "last (errorLog (snd ?early)) =
      ''A range has not been set and the function is not zero at +/- inf''"
    by simp
  with l c e final show ?thesis by simp
qed

text \<open>
  C3. A facade cannot be constructed with the multithread policy in a build without
  \<open>R__USE_IMT\<close>: the constructor throws, so no call is ever made on such an object.
\<close>

lemma TExecutor_new_without_IMT:
  "TExecutor_new False kMultithread nProcessingUnits =
     Inl (InvalidArgument ''kMultithread policy not available when ROOT is compiled with IMT=OFF.'')"
  by (simp add: TExecutor_new_def Let_def)

lemma TExecutor_Map_args_reaches_backend:
  assumes "TExecutor_new imt policy n = Inr this"
  shows "TExecutor_Map_args imt this func args =
           (case policy of
              kSerial \<Rightarrow> TSequentialExecutor_Map func args
            | kMultithread \<Rightarrow> TThreadExecutorImpl_Map n func args
            | kMultiprocess \<Rightarrow> TProcessExecutor_Map n func args)"
  using TExecutor_new_cases[OF assms]
  by (cases policy) (simp_all add: TExecutor_Map_args_def)

text \<open>
  C3, at the call site in \<open>FitUtil.h\<close>. \<open>EvalLogL\<close> called with execution policy 2
  (multiprocess, whose code is commented out) evaluates no item and reports nothing: it
  returns the value computed from zero sums, with an empty error log. \<open>EvalChi2\<close> on the
  same policy does report it.
\<close>

theorem EvalLogL_policy_2_silently_skipped:
  "EvalLogL (\<lambda>i. \<lparr>logvalue = 1 :: int, weight = 0, weight2 = 0\<rparr>)
     (\<lambda>func args. TThreadExecutorImpl_MapReduce [] 4 func (TSeq_items args)) (\<lambda>nEvents. 1)
     3 1 0 True False 2 0 \<lparr>nPoints = 0, errorLog = []\<rparr>
   = (Inr (ReturnMinusLogL \<lparr>logvalue = 0, weight = 0, weight2 = 0\<rparr> False),
      \<lparr>nPoints = 0, errorLog = []\<rparr>)
   \<and> EvalChi2 (\<lambda>i. 1 :: int)
     (\<lambda>func args. TThreadExecutorImpl_MapReduce [] 4 func (TSeq_items args)) (\<lambda>nEvents. 1)
     3 1 False 2 0 \<lparr>nPoints = 0, errorLog = []\<rparr>
   = (Inr 0,
      \<lparr>nPoints = 3,
       errorLog = [''Execution policy unknown. Avalaible choices: 0: Serial (default) 1: MultiThread 2: MultiProcess'']\<rparr>)"
  by (simp add: EvalLogL_def EvalChi2_def bindT_def returnT_def Error_def LikelihoodAux_zero_def)


end
